theory Spec2Isabelle
  imports Main
begin

section \<open>Strings, numbers and the library functions the server calls\<close>

text \<open>
  The program is \<^verbatim>\<open>src/server.js\<close>, a Fastify server that receives uploads in chunks,
  merges them, deduplicates by content hash and stores each file under a serial name.
  Strings and file contents are byte strings. Library functions whose code is not part of
  the repository are parameters of the model, collected in the record \<open>platform\<close>:
  the SHA-256 digest (hex) that \<^verbatim>\<open>crypto.createHash('sha256')\<close> yields for the bytes fed
  to it, \<^verbatim>\<open>path.extname\<close>, and \<^verbatim>\<open>String.prototype.toLowerCase\<close>. The constant
  \<^verbatim>\<open>LOCK_TTL\<close> (environment variable \<^verbatim>\<open>LOCK_TTL_MS\<close>, ten minutes when unset) is a
  field of the same record.
\<close>

type_synonym bytes = string

record platform =
  sha256hex :: "bytes \<Rightarrow> string"
  extname :: "string \<Rightarrow> string"
  toLowerCase :: "string \<Rightarrow> string"
  LOCK_TTL :: int

definition LOCK_TTL_default :: int where
  "LOCK_TTL_default = 10 * 60 * 1000"

text \<open>\<^verbatim>\<open>String(n)\<close> for a non-negative integer: its decimal digits.\<close>

definition digit_char :: "nat \<Rightarrow> char" where
  "digit_char d = char_of (48 + d)"

fun decimal :: "nat \<Rightarrow> string" where
  "decimal n = (if n < 10 then [digit_char n] else decimal (n div 10) @ [digit_char (n mod 10)])"

declare decimal.simps [simp del]

text \<open>The inverse reading of a digit string, used to show that \<open>decimal\<close> is injective.\<close>

definition undecimal :: "string \<Rightarrow> nat" where
  "undecimal s = foldl (\<lambda>a c. 10 * a + (of_char c - 48)) 0 s"

text \<open>\<^verbatim>\<open>s.padStart(w, '0')\<close>.\<close>

definition padStart :: "nat \<Rightarrow> char \<Rightarrow> string \<Rightarrow> string" where
  "padStart w c s = replicate (w - length s) c @ s"

text \<open>\<^verbatim>\<open>s.startsWith(p)\<close>.\<close>

definition startsWith :: "string \<Rightarrow> string \<Rightarrow> bool" where
  "startsWith s p = (take (length p) s = p)"

text \<open>
  A JavaScript number as the handlers see it: the result of \<^verbatim>\<open>parseInt(val, 10)\<close> is an
  integer or \<^verbatim>\<open>NaN\<close>. Integers are exact here; JavaScript agrees up to \<open>2^53\<close> in
  absolute value.
\<close>

datatype jsnum = Num int | NaN

text \<open>The text of a number inside a template string \<^verbatim>\<open>`${index}`\<close>.\<close>

fun show_jsnum :: "jsnum \<Rightarrow> string" where
  "show_jsnum (Num i) = (if i < 0 then CHR ''-'' # decimal (nat (- i)) else decimal (nat i))"
| "show_jsnum NaN = ''NaN''"

definition is_space :: "char \<Rightarrow> bool" where
  "is_space c = (c \<in> set [CHR '' '', CHR 0x09, CHR 0x0A, CHR 0x0B, CHR 0x0C, CHR 0x0D])"

definition is_digit :: "char \<Rightarrow> bool" where
  "is_digit c = (48 \<le> (of_char c :: nat) \<and> (of_char c :: nat) \<le> 57)"

text \<open>\<^verbatim>\<open>val.trim()\<close> on ASCII white space.\<close>

definition trim :: "string \<Rightarrow> string" where
  "trim s = rev (dropWhile is_space (rev (dropWhile is_space s)))"

text \<open>
  \<^verbatim>\<open>parseInt(val, 10)\<close>: leading white space is skipped, one sign is read, then the
  longest run of digits; no digit at all gives \<^verbatim>\<open>NaN\<close>.
\<close>

definition parseInt :: "string \<Rightarrow> jsnum" where
  "parseInt s =
     (let t = dropWhile is_space s;
          neg = (t \<noteq> [] \<and> hd t = CHR ''-'');
          r = (if t \<noteq> [] \<and> (hd t = CHR ''-'' \<or> hd t = CHR ''+'') then tl t else t);
          ds = takeWhile is_digit r
      in if ds = [] then NaN
         else Num (if neg then - int (undecimal ds) else int (undecimal ds)))"

section \<open>The upload directory and the serial allocator\<close>

text \<open>
  An entry of \<^verbatim>\<open>uploadDir\<close> is a file or a directory (a reservation marker), each with
  its modification time in milliseconds. The directory is a list of named entries, in the
  order \<^verbatim>\<open>readdir\<close> lists them; \<open>None\<close> is a directory that does not exist. Entry names
  are taken as they are: \<^verbatim>\<open>path.join\<close> of the directory and a name that contains no
  separator.
\<close>

datatype node = File int bytes | Dir int

fun mtimeMs :: "node \<Rightarrow> int" where
  "mtimeMs (File t b) = t"
| "mtimeMs (Dir t) = t"

type_synonym dir = "(string \<times> node) list"

datatype errno = EEXIST | ENOENT | EISDIR

definition readdir :: "dir option \<Rightarrow> errno + string list" where
  "readdir d = (case d of None \<Rightarrow> Inl ENOENT | Some es \<Rightarrow> Inr (map fst es))"

definition mkdir :: "int \<Rightarrow> string \<Rightarrow> dir option \<Rightarrow> errno + dir option" where
  "mkdir now nm d =
     (case d of
        None \<Rightarrow> Inl ENOENT
      | Some es \<Rightarrow> if nm \<in> set (map fst es) then Inl EEXIST else Inr (Some (es @ [(nm, Dir now)])))"

definition stat :: "string \<Rightarrow> dir option \<Rightarrow> errno + node" where
  "stat nm d =
     (case d of
        None \<Rightarrow> Inl ENOENT
      | Some es \<Rightarrow> (case map_of es nm of None \<Rightarrow> Inl ENOENT | Some x \<Rightarrow> Inr x))"

text \<open>\<^verbatim>\<open>rmrf\<close>: remove the entry, whatever it is; every error is swallowed.\<close>

definition rmrf :: "string \<Rightarrow> dir option \<Rightarrow> dir option" where
  "rmrf nm d = map_option (filter (\<lambda>e. fst e \<noteq> nm)) d"

definition serialTag :: "string \<Rightarrow> nat \<Rightarrow> string" where
  "serialTag prefix n = prefix @ ''-'' @ padStart 4 (CHR ''0'') (decimal n)"

text \<open>\<open>serialPaths\<close> returns \<open>(baseNoExt, lockDir, finalPath)\<close>, as names inside the directory.\<close>

definition serialPaths :: "string \<Rightarrow> string \<Rightarrow> nat \<Rightarrow> string \<Rightarrow> string \<times> string \<times> string" where
  "serialPaths name prefix n ext =
     (let tag = serialTag prefix n;
          baseNoExt = name @ ''_'' @ tag
      in (baseNoExt, baseNoExt @ ''.lock'', baseNoExt @ ext))"

text \<open>The loop over the listed names of \<open>isRealSerialUsed\<close>.\<close>

fun scan_names :: "platform \<Rightarrow> string \<Rightarrow> string list \<Rightarrow> bool" where
  "scan_names P prefix [] = False"
| "scan_names P prefix (nm # names) =
     (if nm = prefix then True
      else if \<not> startsWith nm (prefix @ ''.'') then scan_names P prefix names
      else (let ext = toLowerCase P (drop (length prefix + 1) nm)
            in if ext = ''lock'' \<or> ext = ''serial'' then scan_names P prefix names else True))"

definition isRealSerialUsed :: "platform \<Rightarrow> dir option \<Rightarrow> string \<Rightarrow> bool" where
  "isRealSerialUsed P d baseNoExt =
     (case readdir d of Inl e \<Rightarrow> False | Inr names \<Rightarrow> scan_names P baseNoExt names)"

text \<open>\<open>tryRemoveStaleLock\<close> returns whether it removed the marker, and the directory.\<close>

definition tryRemoveStaleLock :: "platform \<Rightarrow> int \<Rightarrow> string \<Rightarrow> dir option \<Rightarrow> bool \<times> dir option" where
  "tryRemoveStaleLock P now lockDir d =
     (case stat lockDir d of
        Inl e \<Rightarrow> (False, d)
      | Inr st \<Rightarrow> if now - mtimeMs st > LOCK_TTL P then (True, rmrf lockDir d) else (False, d))"

datatype error = AllocationExhausted | IOError errno | MissingChunk nat

text \<open>
  One pass through the body of the \<^verbatim>\<open>for\<close> loop of \<open>reserveSerialPath\<close> for candidate \<open>n\<close>:
  \<open>Continue\<close> is \<^verbatim>\<open>continue\<close>, \<open>Return\<close> the \<^verbatim>\<open>return { finalPath, lockDir, n }\<close>,
  \<open>Throw\<close> the \<^verbatim>\<open>throw e\<close> of an error of \<^verbatim>\<open>mkdir\<close> other than \<^verbatim>\<open>EEXIST\<close>. Each
  carries the directory as the pass leaves it. \<open>now\<close> is what \<^verbatim>\<open>Date.now()\<close> reads
  during the pass.
\<close>

datatype step = Continue "dir option" | Return "string \<times> string \<times> nat" "dir option" | Throw error "dir option"

definition reserve_step :: "platform \<Rightarrow> int \<Rightarrow> string \<Rightarrow> string \<Rightarrow> string \<Rightarrow> nat \<Rightarrow> dir option \<Rightarrow> step" where
  "reserve_step P now name prefix ext n d =
     (case serialPaths name prefix n ext of (baseNoExt, lockDir, finalPath) \<Rightarrow>
        if isRealSerialUsed P d baseNoExt then Continue d
        else (case mkdir now lockDir d of
                Inl e \<Rightarrow>
                  if e = EEXIST then Continue (snd (tryRemoveStaleLock P now lockDir d))
                  else Throw (IOError e) d
              | Inr d' \<Rightarrow>
                  if isRealSerialUsed P d' baseNoExt then Continue (rmrf lockDir d')
                  else Return (finalPath, lockDir, n) d'))"

text \<open>
  The loop \<^verbatim>\<open>for (let n = 0; n < 1e6; n++)\<close>, from candidate \<open>n\<close> on. \<open>clock n\<close> is the time
  read while candidate \<open>n\<close> is probed. The last argument counts the passes through the loop
  body; it is not a variable of the source and nothing depends on it. The result is the
  outcome, the directory as the call leaves it, and the count.
\<close>

function reserve_loop ::
  "platform \<Rightarrow> (nat \<Rightarrow> int) \<Rightarrow> string \<Rightarrow> string \<Rightarrow> string \<Rightarrow> nat \<Rightarrow> dir option \<Rightarrow> nat
     \<Rightarrow> (error + string \<times> string \<times> nat) \<times> dir option \<times> nat" where
  "reserve_loop P clock name prefix ext n d k =
     (if n < 1000000 then
        (case reserve_step P (clock n) name prefix ext n d of
           Continue d' \<Rightarrow> reserve_loop P clock name prefix ext (Suc n) d' (Suc k)
         | Return r d' \<Rightarrow> (Inr r, d', Suc k)
         | Throw e d' \<Rightarrow> (Inl e, d', Suc k))
      else (Inl AllocationExhausted, d, k))"
  by pat_completeness auto
termination
  by (relation "measure (\<lambda>(P, clock, name, prefix, ext, n, d, k). 1000000 - n)") auto

declare reserve_loop.simps [simp del]

definition reserveSerialPath ::
  "platform \<Rightarrow> (nat \<Rightarrow> int) \<Rightarrow> dir option \<Rightarrow> string \<Rightarrow> bool \<Rightarrow> string
     \<Rightarrow> (error + string \<times> string \<times> nat) \<times> dir option \<times> nat" where
  "reserveSerialPath P clock baseDir name isVideo ext =
     (let prefix = (if isVideo then ''VID'' else ''IMG'')
      in reserve_loop P clock name prefix ext 0 baseDir 0)"

text \<open>The names a directory lists, as a set; and the \<open>baseNoExt\<close> of \<open>serialPaths\<close>.\<close>

definition entry_names :: "dir option \<Rightarrow> string set" where
  "entry_names d = (case d of None \<Rightarrow> {} | Some es \<Rightarrow> set (map fst es))"

definition baseNoExt :: "string \<Rightarrow> string \<Rightarrow> nat \<Rightarrow> string" where
  "baseNoExt name prefix n = fst (serialPaths name prefix n [])"

section \<open>The state of the server\<close>

text \<open>
  \<^verbatim>\<open>JSON.stringify\<close> writes \<^verbatim>\<open>NaN\<close> as \<^verbatim>\<open>null\<close>, so a number read back from a manifest
  file is an integer or \<^verbatim>\<open>null\<close>.
\<close>

datatype json_num = JNum int | JNull

fun to_json :: "jsnum \<Rightarrow> json_num" where
  "to_json (Num i) = JNum i"
| "to_json NaN = JNull"

text \<open>
  \<^verbatim>\<open>manifest.received.includes(index)\<close> on the array of a manifest: a number equals the same
  number; \<^verbatim>\<open>NaN\<close> is never found, since a stored \<^verbatim>\<open>NaN\<close> has become \<^verbatim>\<open>null\<close>.
\<close>

fun includes_index :: "json_num list \<Rightarrow> jsnum \<Rightarrow> bool" where
  "includes_index rs (Num i) = (JNum i \<in> set rs)"
| "includes_index rs NaN = False"

record manifest =
  uploadId :: string
  filename :: "string option"
  totalChunks :: json_num
  isVideo :: bool
  received :: "json_num list"
  mtime :: int

text \<open>
  A manifest file holds a manifest this server wrote, or text that \<^verbatim>\<open>JSON.parse\<close> rejects.
\<close>

datatype mfile = Garbage | MJson manifest

record log_entry =
  authKey :: string
  fullName :: string
  originalName :: string
  savedName :: string
  timestamp :: int
  hash :: string
  deduped :: bool

text \<open>
  The state. \<open>users\<close> is the owner lookup as the handlers consult it: \<open>users s k\<close> is
  the value of \<^verbatim>\<open>users[k]\<close>, and \<open>None\<close> when that is \<^verbatim>\<open>undefined\<close>. The source keeps
  \<^verbatim>\<open>users\<close> in a plain object, so \<^verbatim>\<open>users[k]\<close> has a value for each token of the csv
  file and also for each property name of \<^verbatim>\<open>Object.prototype\<close>, such as
  \<^verbatim>\<open>constructor\<close>; the lookup of a state is to be read with those included. Then come the
  four directories: \<^verbatim>\<open>uploadDir\<close> as above, and \<^verbatim>\<open>tmpUploadDir\<close>, \<^verbatim>\<open>chunkDir\<close> and
  \<^verbatim>\<open>manifestDir\<close>, which hold plain files and are maps from file name to content. Last
  are the log in memory, the log file, and the hash index.
\<close>

record server =
  users :: "string \<rightharpoonup> string"
  uploads :: "dir option"
  tmpFiles :: "string \<rightharpoonup> bytes"
  chunkFiles :: "string \<rightharpoonup> bytes"
  manifestFiles :: "string \<rightharpoonup> mfile"
  uploadLog :: "log_entry list"
  logFile :: "log_entry list option"
  hashIndex :: "string \<rightharpoonup> string"

text \<open>
  \<^verbatim>\<open>users[authKey]\<close> and \<^verbatim>\<open>hashIndex.get(sha256)\<close> are used under \<^verbatim>\<open>if (x)\<close> and
  \<^verbatim>\<open>!x\<close>: an empty string counts as absent.
\<close>

definition lookup_truthy :: "(string \<rightharpoonup> string) \<Rightarrow> string \<Rightarrow> string option" where
  "lookup_truthy m k = (case m k of None \<Rightarrow> None | Some v \<Rightarrow> if v = [] then None else Some v)"

definition getChunkPath :: "string \<Rightarrow> jsnum \<Rightarrow> string" where
  "getChunkPath uid index = uid @ ''_chunk_'' @ show_jsnum index"

definition getManifestPath :: "string \<Rightarrow> string" where
  "getManifestPath ident = ident @ ''.json''"

text \<open>\<^verbatim>\<open>fs.promises.rename\<close> inside one directory of plain files; \<open>None\<close> when the source is missing.\<close>

definition rename_file :: "string \<Rightarrow> string \<Rightarrow> (string \<rightharpoonup> 'a) \<Rightarrow> (string \<rightharpoonup> 'a) option" where
  "rename_file src dst m =
     (case m src of None \<Rightarrow> None | Some b \<Rightarrow> Some ((m(src := None))(dst \<mapsto> b)))"

definition writeJsonAtomic :: "string \<Rightarrow> 'a \<Rightarrow> (string \<rightharpoonup> 'a) \<Rightarrow> (string \<rightharpoonup> 'a)" where
  "writeJsonAtomic file obj m =
     (let tmp = file @ ''.tmp'';
          m1 = m(tmp \<mapsto> obj)
      in case rename_file tmp file m1 of None \<Rightarrow> m1 | Some m2 \<Rightarrow> m2)"

datatype 'a reply = Ok 'a | Err nat string

section \<open>Resume status: GET /upload-status\<close>

definition upload_status :: "string option \<Rightarrow> server \<Rightarrow> json_num list reply" where
  "upload_status query_hash s =
     (let ident = (case query_hash of None \<Rightarrow> [] | Some h \<Rightarrow> h)
      in if ident = [] then Err 400 ''Missing id''
         else (case manifestFiles s (getManifestPath ident) of
                 None \<Rightarrow> Ok []
               | Some Garbage \<Rightarrow> Err 500 ''Failed to read manifest''
               | Some (MJson m) \<Rightarrow> Ok (received m)))"

section \<open>Receiving one chunk: POST /upload-chunk\<close>

text \<open>
  A part of the multipart body is a field (name, value) or a file (field name, payload).
  A file part also carries the text \<^verbatim>\<open>`${Date.now()}-${Math.random().toString(36).slice(2)}`\<close>
  that the handler draws when it has to stage that part under a temporary name.
\<close>

datatype part = Field string string | FilePart string bytes string

record chunk_vars =
  v_authKey :: "string option"
  v_uploadId :: "string option"
  v_index :: "jsnum option"
  v_totalChunks :: "jsnum option"
  v_filename :: "string option"
  v_isVideo :: bool
  v_wrotePath :: "string option"
  v_wroteTemp :: bool
  v_sawFile :: bool

definition init_vars :: chunk_vars where
  "init_vars = \<lparr> v_authKey = None, v_uploadId = None, v_index = None, v_totalChunks = None,
      v_filename = None, v_isVideo = False, v_wrotePath = None, v_wroteTemp = False, v_sawFile = False \<rparr>"

text \<open>\<^verbatim>\<open>if (x)\<close> on a variable that is \<^verbatim>\<open>null\<close> or a string.\<close>

fun truthy :: "string option \<Rightarrow> bool" where
  "truthy None = False"
| "truthy (Some v) = (v \<noteq> [])"

text \<open>\<^verbatim>\<open>/^true$/i.test(val)\<close>.\<close>

definition is_true :: "string \<Rightarrow> bool" where
  "is_true val = (length val = 4 \<and>
     val ! 0 \<in> {CHR ''t'', CHR ''T''} \<and> val ! 1 \<in> {CHR ''r'', CHR ''R''} \<and>
     val ! 2 \<in> {CHR ''u'', CHR ''U''} \<and> val ! 3 \<in> {CHR ''e'', CHR ''E''})"

text \<open>The \<^verbatim>\<open>switch (part.fieldname)\<close> of the body loop, on a field.\<close>

definition set_field :: "chunk_vars \<Rightarrow> string \<Rightarrow> string \<Rightarrow> chunk_vars" where
  "set_field v fieldname val =
     (if fieldname = ''authKey'' then v\<lparr>v_authKey := Some (trim val)\<rparr>
      else if fieldname = ''uploadId'' then v\<lparr>v_uploadId := Some (trim val)\<rparr>
      else if fieldname = ''index'' then v\<lparr>v_index := Some (parseInt val)\<rparr>
      else if fieldname = ''totalChunks'' then v\<lparr>v_totalChunks := Some (parseInt val)\<rparr>
      else if fieldname = ''filename'' then v\<lparr>v_filename := Some val\<rparr>
      else if fieldname = ''isVideo'' then v\<lparr>v_isVideo := is_true val\<rparr>
      else v)"

text \<open>
  \<^verbatim>\<open>getChunkPath\<close> and \<^verbatim>\<open>getManifestPath\<close> put the \<^verbatim>\<open>uploadId\<close> of the request in
  \<^verbatim>\<open>path.join\<close>. The path names a file of \<^verbatim>\<open>chunkDir\<close> or \<^verbatim>\<open>manifestDir\<close> when the
  \<^verbatim>\<open>uploadId\<close> holds no separator; with one it can name a file elsewhere (\<^verbatim>\<open>../x\<close> is
  in \<^verbatim>\<open>uploadDir\<close>) or in a directory that does not exist.
\<close>

definition plain_name :: "string \<Rightarrow> bool" where
  "plain_name nm = (CHR ''/'' \<notin> set nm)"

text \<open>
  The state of \<^verbatim>\<open>for await (const part of parts)\<close> between two parts.
  \<open>Running\<close>: the variables and the chunk directory.
  \<open>Stalled\<close>: a file part whose field name is not \<^verbatim>\<open>chunk\<close> has arrived. The loop
  body does nothing with it, its stream is never read, and \<^verbatim>\<open>req.parts()\<close> hands out
  the next part only once the stream of this one has been read to its end: the loop
  waits for ever, and the handler neither replies nor throws.
  \<open>Escaped\<close>: the payload went to a path whose \<^verbatim>\<open>uploadId\<close> holds a separator. What
  that write does lies outside the chunk directory, and the model follows the request no
  further. Both carry the chunk directory as it is at that moment.
\<close>

datatype body = Running chunk_vars "string \<rightharpoonup> bytes" | Stalled "string \<rightharpoonup> bytes" | Escaped "string \<rightharpoonup> bytes"

text \<open>
  One pass through the body of the loop. The staging name \<^verbatim>\<open>.inflight.<drawn>\<close> is made
  by the server and names a file of the chunk directory.
\<close>

fun chunk_part :: "body \<Rightarrow> part \<Rightarrow> body" where
  "chunk_part (Running v cf) (Field fieldname val) = Running (set_field v fieldname val) cf"
| "chunk_part (Running v cf) (FilePart fieldname payload drawn) =
     (if fieldname = ''chunk'' then
        (case (v_uploadId v, v_index v) of
           (Some uid, Some index) \<Rightarrow>
             if uid \<noteq> [] then
               (if plain_name uid
                then Running (v\<lparr>v_sawFile := True, v_wrotePath := Some (getChunkPath uid index)\<rparr>)
                             (cf(getChunkPath uid index \<mapsto> payload))
                else Escaped cf)
             else
               Running (v\<lparr>v_sawFile := True, v_wrotePath := Some (''.inflight.'' @ drawn), v_wroteTemp := True\<rparr>)
                       (cf(''.inflight.'' @ drawn \<mapsto> payload))
         | _ \<Rightarrow>
             Running (v\<lparr>v_sawFile := True, v_wrotePath := Some (''.inflight.'' @ drawn), v_wroteTemp := True\<rparr>)
                     (cf(''.inflight.'' @ drawn \<mapsto> payload)))
      else Stalled cf)"
| "chunk_part (Stalled cf) p = Stalled cf"
| "chunk_part (Escaped cf) p = Escaped cf"

text \<open>
  What a request to the handler comes to: a reply; no reply, when the body loop stalls;
  or an effect outside the directories of the model, when the \<^verbatim>\<open>uploadId\<close> holds a
  separator.
\<close>

datatype chunk_outcome = Replied "jsnum reply" | NoReply | Escapes

text \<open>
  The handler. \<open>now\<close> is \<^verbatim>\<open>Date.now()\<close>. The validation runs after the whole body has been
  consumed, as the source says (\<^verbatim>\<open>after consuming the body so we don't hang\<close>). Past the
  validation, the rename of a staged payload and the manifest are at paths made from the
  \<^verbatim>\<open>uploadId\<close>. Errors of the file system other than a missing source of the rename (a
  name too long, a full disk) are not modelled.
\<close>

definition upload_chunk :: "int \<Rightarrow> part list \<Rightarrow> server \<Rightarrow> chunk_outcome \<times> server" where
  "upload_chunk now parts s =
     (case foldl chunk_part (Running init_vars (chunkFiles s)) parts of
        Stalled cf \<Rightarrow> (NoReply, s\<lparr>chunkFiles := cf\<rparr>)
      | Escaped cf \<Rightarrow> (Escapes, s\<lparr>chunkFiles := cf\<rparr>)
      | Running v cf \<Rightarrow>
        let s1 = s\<lparr>chunkFiles := cf\<rparr> in
        if \<not> truthy (v_authKey v) \<or> lookup_truthy (users s) (the (v_authKey v)) = None
        then (Replied (Err 403 ''Invalid authKey''), s1)
        else (case (v_uploadId v, v_index v, v_totalChunks v) of
            (Some uid, Some index, Some tot) \<Rightarrow>
              if uid = [] \<or> \<not> v_sawFile v then (Replied (Err 400 ''Missing fields for chunk''), s1)
              else if \<not> plain_name uid then (Escapes, s1)
              else
                (case (if v_wroteTemp v
                       then (case v_wrotePath v of
                               None \<Rightarrow> None
                             | Some wrote \<Rightarrow> rename_file wrote (getChunkPath uid index) cf)
                       else Some cf) of
                   None \<Rightarrow> (Replied (Err 500 ''Chunk upload failed''), s1)
                 | Some cf2 \<Rightarrow>
                     let manifestPath = getManifestPath uid;
                         fresh = \<lparr> uploadId = uid, filename = v_filename v, totalChunks = to_json tot,
                                   isVideo = v_isVideo v, received = [], mtime = now \<rparr>;
                         manifest = (case manifestFiles s manifestPath of
                                       Some (MJson m) \<Rightarrow> m
                                     | _ \<Rightarrow> fresh);
                         pushed = (if includes_index (received manifest) index then manifest
                                   else manifest\<lparr>received := received manifest @ [to_json index]\<rparr>);
                         manifest' = pushed\<lparr>mtime := now\<rparr>
                     in (Replied (Ok index),
                         s\<lparr>chunkFiles := cf2,
                           manifestFiles := writeJsonAtomic manifestPath (MJson manifest') (manifestFiles s)\<rparr>))
          | _ \<Rightarrow> (Replied (Err 400 ''Missing fields for chunk''), s1)))"

section \<open>Assembly: assembleChunksToTemp\<close>

text \<open>
  The loop \<^verbatim>\<open>for (let i = 0; i < totalChunks; i++)\<close>. Its state is the chunk directory,
  the bytes piped into the writer \<open>out\<close> so far and the bytes given to \<^verbatim>\<open>hasher.update\<close>
  so far. A chunk that exists is read once: its bytes go to both, and the chunk file is
  unlinked when it has been read. A missing chunk throws.
\<close>

function assemble_loop ::
  "string \<Rightarrow> int \<Rightarrow> nat \<Rightarrow> (string \<rightharpoonup> bytes) \<Rightarrow> bytes \<Rightarrow> bytes
     \<Rightarrow> (error + unit) \<times> (string \<rightharpoonup> bytes) \<times> bytes \<times> bytes" where
  "assemble_loop uid tot i cf out fed =
     (if int i < tot then
        (case cf (getChunkPath uid (Num (int i))) of
           None \<Rightarrow> (Inl (MissingChunk i), cf, out, fed)
         | Some c \<Rightarrow>
             assemble_loop uid tot (Suc i) (cf(getChunkPath uid (Num (int i)) := None)) (out @ c) (fed @ c))
      else (Inr (), cf, out, fed))"
  by pat_completeness auto
termination
  by (relation "measure (\<lambda>(uid, tot, i, cf, out, fed). nat (tot - int i))") auto

declare assemble_loop.simps [simp del]

text \<open>
  \<open>assembleChunksToTemp\<close>: the writer creates the output file; on success the file holds all
  bytes written and the digest of the bytes fed to the hasher is returned; on an error the
  writer is destroyed and the file stays, with what was written (the model flushes every
  write).
\<close>

definition assembleChunksToTemp :: "platform \<Rightarrow> string \<Rightarrow> int \<Rightarrow> string \<Rightarrow> server \<Rightarrow> (error + string) \<times> server" where
  "assembleChunksToTemp P uid tot tmpOutPath s =
     (case assemble_loop uid tot 0 (chunkFiles s) [] [] of
        (r, cf, out, fed) \<Rightarrow>
          (case r of Inl e \<Rightarrow> Inl e | Inr u \<Rightarrow> Inr (sha256hex P fed),
           s\<lparr>chunkFiles := cf, tmpFiles := (tmpFiles s)(tmpOutPath \<mapsto> out)\<rparr>))"

section \<open>Finalizing a reservation\<close>

text \<open>\<open>put\<close> writes an entry of the upload directory: in place when the name exists.\<close>

definition put :: "string \<Rightarrow> node \<Rightarrow> dir \<Rightarrow> dir" where
  "put nm x es =
     (if nm \<in> set (map fst es) then map (\<lambda>e. if fst e = nm then (nm, x) else e) es
      else es @ [(nm, x)])"

text \<open>
  \<open>finalizeReservation\<close>: \<^verbatim>\<open>rename(tmpPath, finalPath)\<close>, and when that throws,
  \<^verbatim>\<open>copyFile\<close> then \<^verbatim>\<open>unlink\<close>. Both fail when the staged file is missing or the
  destination is a directory, and the error leaves the function; otherwise the staged
  bytes are at the destination and the staged file is gone. The marker is removed in
  either case (\<^verbatim>\<open>finally\<close>). The stored file is stamped with \<open>now\<close>.
\<close>

definition finalizeReservation :: "int \<Rightarrow> string \<Rightarrow> string \<Rightarrow> string \<Rightarrow> server \<Rightarrow> (error + unit) \<times> server" where
  "finalizeReservation now tmpPath finalPath lockDir s =
     (case tmpFiles s tmpPath of
        None \<Rightarrow> (Inl (IOError ENOENT), s\<lparr>uploads := rmrf lockDir (uploads s)\<rparr>)
      | Some b \<Rightarrow>
          (case uploads s of
             None \<Rightarrow> (Inl (IOError ENOENT), s\<lparr>uploads := rmrf lockDir (uploads s)\<rparr>)
           | Some es \<Rightarrow>
               (case map_of es finalPath of
                  Some (Dir t) \<Rightarrow> (Inl (IOError EISDIR), s\<lparr>uploads := rmrf lockDir (uploads s)\<rparr>)
                | _ \<Rightarrow>
                    (Inr (),
                     s\<lparr>tmpFiles := (tmpFiles s)(tmpPath := None),
                       uploads := rmrf lockDir (Some (put finalPath (File now b) es))\<rparr>))))"

section \<open>Finalize: POST /upload-manifest\<close>

text \<open>
  The body is read for fields named \<^verbatim>\<open>manifest\<close>: each holds text that \<^verbatim>\<open>JSON.parse\<close>
  rejects (\<open>BadJson\<close>) or an object. A member of the object that is absent is given here
  by the value the validation treats alike: the empty string, \<open>0\<close>, \<open>False\<close>.
  \<open>req_totalChunks\<close> is an integer.
\<close>

record finreq =
  req_uploadId :: string
  req_totalChunks :: int
  req_filename :: string
  req_authKey :: string
  req_isVideo :: bool

datatype mpart = BadJson | Json finreq

fun read_manifest :: "finreq option \<Rightarrow> mpart list \<Rightarrow> string + finreq option" where
  "read_manifest m [] = Inr m"
| "read_manifest m (BadJson # ps) = Inl ''Invalid manifest JSON''"
| "read_manifest m (Json r # ps) = read_manifest (Some r) ps"

datatype finalized = Saved string string | Deduped string

text \<open>
  The handler. \<open>uuid\<close> is \<^verbatim>\<open>crypto.randomUUID()\<close>, \<open>clock\<close> gives the times the allocator
  reads, \<open>now\<close> the time of the rename and of the log entry. Every exception ends in the
  reply 500 \<^verbatim>\<open>Assembly failed\<close>, with the state as the exception left it.
\<close>

definition upload_manifest ::
  "platform \<Rightarrow> string \<Rightarrow> (nat \<Rightarrow> int) \<Rightarrow> int \<Rightarrow> mpart list \<Rightarrow> server \<Rightarrow> finalized reply \<times> server" where
  "upload_manifest P uuid clock now parts s =
     (case read_manifest None parts of
        Inl msg \<Rightarrow> (Err 400 msg, s)
      | Inr None \<Rightarrow> (Err 400 ''Missing manifest fields'', s)
      | Inr (Some m) \<Rightarrow>
          if req_uploadId m = [] \<or> req_totalChunks m = 0 \<or> req_filename m = [] \<or> req_authKey m = []
          then (Err 400 ''Missing manifest fields'', s)
          else
            (case lookup_truthy (users s) (req_authKey m) of
               None \<Rightarrow> (Err 403 ''Invalid authKey'', s)
             | Some user \<Rightarrow>
                 let ext = extname P (req_filename m);
                     tempOut = ''.merge.'' @ uuid @ ext
                 in (case assembleChunksToTemp P (req_uploadId m) (req_totalChunks m) tempOut s of
                       (Inl e, s1) \<Rightarrow> (Err 500 ''Assembly failed'', s1)
                     | (Inr sha, s1) \<Rightarrow>
                         (case lookup_truthy (hashIndex s1) sha of
                            Some existing \<Rightarrow>
                              let s2 = s1\<lparr>tmpFiles := (tmpFiles s1)(tempOut := None),
                                          manifestFiles := (manifestFiles s1)(getManifestPath (req_uploadId m) := None),
                                          uploadLog := uploadLog s1 @
                                            [\<lparr> authKey = req_authKey m, fullName = user,
                                               originalName = req_filename m, savedName = existing,
                                               timestamp = now, hash = sha, deduped = True \<rparr>]\<rparr>
                              in (Ok (Deduped existing), s2\<lparr>logFile := Some (uploadLog s2)\<rparr>)
                          | None \<Rightarrow>
                              (case reserveSerialPath P clock (uploads s1) user (req_isVideo m) ext of
                                 (Inl e, d, k) \<Rightarrow> (Err 500 ''Assembly failed'', s1\<lparr>uploads := d\<rparr>)
                               | (Inr (finalPath, lockDir, n), d, k) \<Rightarrow>
                                   (case finalizeReservation now tempOut finalPath lockDir (s1\<lparr>uploads := d\<rparr>) of
                                      (Inl e, s2) \<Rightarrow> (Err 500 ''Assembly failed'', s2)
                                    | (Inr u, s2) \<Rightarrow>
                                        let s3 = s2\<lparr>hashIndex := (hashIndex s2)(sha \<mapsto> finalPath),
                                                    uploadLog := uploadLog s2 @
                                                      [\<lparr> authKey = req_authKey m, fullName = user,
                                                         originalName = req_filename m, savedName = finalPath,
                                                         timestamp = now, hash = sha, deduped = False \<rparr>]\<rparr>;
                                            s4 = s3\<lparr>logFile := Some (uploadLog s3)\<rparr>
                                        in (Ok (Saved finalPath sha),
                                            s4\<lparr>manifestFiles :=
                                                 (manifestFiles s4)(getManifestPath (req_uploadId m) := None)\<rparr>)))))))"

section \<open>Direct upload: POST /upload\<close>

text \<open>
  A part is a field or a file: its file name, its MIME type, its payload, and the text
  \<^verbatim>\<open>`${Date.now()}_${Math.random().toString(36).slice(2)}`\<close> drawn for its staging name.
\<close>

datatype dpart = DField string string | DFile string string bytes string

record staged =
  st_tmpPath :: string
  st_sha256 :: string
  st_ext :: string
  st_isVideo :: bool
  st_originalName :: string

definition video_exts :: "string list" where
  "video_exts = [''.mp4'', ''.mov'', ''.avi'', ''.mkv'', ''.webm'', ''.flv'', ''.ogv'']"

text \<open>
  The first loop: the variables \<^verbatim>\<open>authKey\<close>, \<^verbatim>\<open>user\<close> and \<^verbatim>\<open>staged\<close>, and the
  temporary directory. Each file is written through the hashing tee.
\<close>

fun stage_part ::
  "platform \<Rightarrow> (string \<rightharpoonup> string) \<Rightarrow> string option \<times> string option \<times> staged list \<times> (string \<rightharpoonup> bytes) \<Rightarrow> dpart
     \<Rightarrow> string option \<times> string option \<times> staged list \<times> (string \<rightharpoonup> bytes)" where
  "stage_part P us (ak, user, st, tf) (DField fieldname val) =
     (if fieldname = ''authKey'' then (Some (trim val), lookup_truthy us (trim val), st, tf)
      else (ak, user, st, tf))"
| "stage_part P us (ak, user, st, tf) (DFile fname mimetype payload drawn) =
     (let ext = extname P fname;
          isVid = (startsWith mimetype ''video/'' \<or> toLowerCase P ext \<in> set video_exts);
          tmpPath = drawn @ ''_'' @ fname
      in (ak, user,
          st @ [\<lparr> st_tmpPath = tmpPath, st_sha256 = sha256hex P payload, st_ext = ext,
                  st_isVideo = isVid, st_originalName = fname \<rparr>],
          tf(tmpPath \<mapsto> payload)))"

text \<open>
  The second loop, \<^verbatim>\<open>for (const s of staged)\<close>, with \<^verbatim>\<open>savedFiles\<close> as accumulator. An
  exception of the allocator or of the rename leaves the loop.
\<close>

fun store_staged ::
  "platform \<Rightarrow> (nat \<Rightarrow> int) \<Rightarrow> int \<Rightarrow> string \<Rightarrow> string \<Rightarrow> staged list \<Rightarrow> string list \<Rightarrow> server
     \<Rightarrow> (error + string list) \<times> server" where
  "store_staged P clock now ak user [] saved s = (Inr saved, s)"
| "store_staged P clock now ak user (x # xs) saved s =
     (case lookup_truthy (hashIndex s) (st_sha256 x) of
        Some existing \<Rightarrow>
          store_staged P clock now ak user xs saved
            (s\<lparr>tmpFiles := (tmpFiles s)(st_tmpPath x := None),
               uploadLog := uploadLog s @
                 [\<lparr> authKey = ak, fullName = user, originalName = st_originalName x,
                    savedName = existing, timestamp = now, hash = st_sha256 x, deduped = True \<rparr>]\<rparr>)
      | None \<Rightarrow>
          (case reserveSerialPath P clock (uploads s) user (st_isVideo x) (st_ext x) of
             (Inl e, d, k) \<Rightarrow> (Inl e, s\<lparr>uploads := d\<rparr>)
           | (Inr (finalPath, lockDir, n), d, k) \<Rightarrow>
               (case finalizeReservation now (st_tmpPath x) finalPath lockDir (s\<lparr>uploads := d\<rparr>) of
                  (Inl e, s2) \<Rightarrow> (Inl e, s2)
                | (Inr u, s2) \<Rightarrow>
                    store_staged P clock now ak user xs (saved @ [finalPath])
                      (s2\<lparr>hashIndex := (hashIndex s2)(st_sha256 x \<mapsto> finalPath),
                          uploadLog := uploadLog s2 @
                            [\<lparr> authKey = ak, fullName = user, originalName = st_originalName x,
                               savedName = finalPath, timestamp = now, hash = st_sha256 x,
                               deduped = False \<rparr>]\<rparr>))))"

text \<open>\<^verbatim>\<open>Promise.allSettled(staged.map(s => fs.promises.unlink(s.tmpPath)))\<close>.\<close>

definition unlink_all :: "string list \<Rightarrow> (string \<rightharpoonup> bytes) \<Rightarrow> (string \<rightharpoonup> bytes)" where
  "unlink_all ps tf = foldl (\<lambda>m p. m(p := None)) tf ps"

definition upload :: "platform \<Rightarrow> (nat \<Rightarrow> int) \<Rightarrow> int \<Rightarrow> dpart list \<Rightarrow> server \<Rightarrow> string list reply \<times> server" where
  "upload P clock now parts s =
     (case foldl (stage_part P (users s)) (None, None, [], tmpFiles s) parts of
        (ak, user, st, tf) \<Rightarrow>
          (case (if truthy ak then user else None) of
             None \<Rightarrow>
               (Err 403 ''Invalid or missing authKey'', s\<lparr>tmpFiles := unlink_all (map st_tmpPath st) tf\<rparr>)
           | Some u \<Rightarrow>
               (case store_staged P clock now (the ak) u st [] (s\<lparr>tmpFiles := tf\<rparr>) of
                  (Inl e, s2) \<Rightarrow> (Err 500 ''Upload failed'', s2)
                | (Inr saved, s2) \<Rightarrow> (Ok saved, s2\<lparr>logFile := Some (uploadLog s2)\<rparr>))))"

text \<open>
  A platform for running the model on concrete inputs. Its digest is a stand-in that
  keeps the bytes; its \<open>extname\<close> cuts at the first dot; its \<open>toLowerCase\<close> changes nothing.
\<close>

definition test_platform :: platform where
  "test_platform =
     \<lparr> sha256hex = (\<lambda>b. ''sha:'' @ b),
       extname = (\<lambda>s. dropWhile (\<lambda>c. c \<noteq> CHR ''.'') s),
       toLowerCase = (\<lambda>s. s),
       LOCK_TTL = LOCK_TTL_default \<rparr>"

section \<open>Notions used to state the properties\<close>

text \<open>The chunk directory after the chunks with indices from \<open>i\<close> below \<open>i + n\<close> have been unlinked.\<close>

definition consumed :: "string \<Rightarrow> nat \<Rightarrow> nat \<Rightarrow> (string \<rightharpoonup> bytes) \<Rightarrow> (string \<rightharpoonup> bytes)" where
  "consumed uid i n cf = (\<lambda>p. if p \<in> (\<lambda>j. getChunkPath uid (Num (int j))) ` {i..<i + n} then None else cf p)"

text \<open>
  The shape of a chunk submission: which parts are fields, and the names of its fields in
  order. \<open>authorized\<close> and \<open>fields_missing\<close> are the tests the handler makes, once the
  body is consumed, on the variables that fields set.
\<close>

fun is_field :: "part \<Rightarrow> bool" where
  "is_field (Field n v) = True"
| "is_field (FilePart n b d) = False"

fun field_names :: "part list \<Rightarrow> string list" where
  "field_names [] = []"
| "field_names (Field n v # ps) = n # field_names ps"
| "field_names (FilePart n b d # ps) = field_names ps"

text \<open>
  The variables as the fields of a body set them, from \<open>v\<close> on; and the path the handler
  writes a payload to when it arrives with the variables at \<open>v\<close>.
\<close>

fun field_vars :: "chunk_vars \<Rightarrow> part list \<Rightarrow> chunk_vars" where
  "field_vars v [] = v"
| "field_vars v (Field n val # ps) = field_vars (set_field v n val) ps"
| "field_vars v (FilePart n b d # ps) = field_vars v ps"

definition write_target :: "chunk_vars \<Rightarrow> string \<Rightarrow> string" where
  "write_target v drawn =
     (case (v_uploadId v, v_index v) of
        (Some uid, Some index) \<Rightarrow> if uid \<noteq> [] then getChunkPath uid index else ''.inflight.'' @ drawn
      | _ \<Rightarrow> ''.inflight.'' @ drawn)"



text \<open>A server with one owner and empty directories, for running the model.\<close>

definition test_server :: server where
  "test_server =
     \<lparr> users = [''key1'' \<mapsto> ''Bob''], uploads = Some [], tmpFiles = Map.empty,
       chunkFiles = Map.empty, manifestFiles = Map.empty, uploadLog = [], logFile = None,
       hashIndex = Map.empty \<rparr>"

section \<open>Properties of the serial allocator\<close>

lemma startsWith_iff: "startsWith s p \<longleftrightarrow> (\<exists>e. s = p @ e)"
  unfolding startsWith_def
  by (metis append_eq_conv_conj append_take_drop_id)

lemma scan_names_iff:
  "scan_names P base names \<longleftrightarrow>
     (\<exists>nm \<in> set names. nm = base \<or>
        (\<exists>e. nm = base @ ''.'' @ e \<and> toLowerCase P e \<noteq> ''lock'' \<and> toLowerCase P e \<noteq> ''serial''))"
proof (induction names)
  case Nil
  show ?case by simp
next
  case (Cons nm names)
  have drop_ext: "drop (length base + 1) (base @ ''.'' @ e) = e" for e
    by simp
  show ?case
  proof (cases "nm = base")
    case True
    then show ?thesis by simp
  next
    case False
    show ?thesis
    proof (cases "startsWith nm (base @ ''.'')")
      case False
      with \<open>nm \<noteq> base\<close> Cons show ?thesis
        by (auto simp: startsWith_iff)
    next
      case True
      then obtain e where e: "nm = base @ ''.'' @ e"
        by (auto simp: startsWith_iff)
      with \<open>nm \<noteq> base\<close> True Cons show ?thesis
        by (auto simp: Let_def)
    qed
  qed
qed

lemma reserve_loop_probes:
  "reserve_loop P clock name prefix ext n d k = (r, d', k') \<Longrightarrow> n \<le> 1000000 \<Longrightarrow>
     k' - k \<le> 1000000 - n \<and> k \<le> k' \<and>
     (r = Inl AllocationExhausted \<longrightarrow> k' - k = 1000000 - n) \<and>
     (\<forall>fp ld m. r = Inr (fp, ld, m) \<longrightarrow> n \<le> m \<and> m < 1000000 \<and> k' - k = Suc (m - n))"
proof (induction P clock name prefix ext n d k arbitrary: r d' k' rule: reserve_loop.induct)
  case (1 P clock name prefix ext n d k)
  show ?case
  proof (cases "n < 1000000")
    case False
    with "1.prems" show ?thesis
      by (auto simp: reserve_loop.simps)
  next
    case True
    show ?thesis
    proof (cases "reserve_step P (clock n) name prefix ext n d")
      case (Continue d1)
      with True "1.prems" have rec: "reserve_loop P clock name prefix ext (Suc n) d1 (Suc k) = (r, d', k')"
        by (simp add: reserve_loop.simps)
      from "1.IH"[OF True Continue rec] True show ?thesis
        by auto
    next
      case (Return x d1)
      with True "1.prems" have "r = Inr x" "k' = Suc k"
        by (simp_all add: reserve_loop.simps)
      moreover from Return have "snd (snd x) = n"
        by (auto simp: reserve_step_def split: prod.splits if_splits sum.splits)
      ultimately show ?thesis using True
        by auto
    next
      case (Throw e d1)
      with True "1.prems" have "r = Inl e" "k' = Suc k"
        by (simp_all add: reserve_loop.simps)
      moreover from Throw have "e \<noteq> AllocationExhausted"
        by (auto simp: reserve_step_def split: prod.splits if_splits sum.splits)
      ultimately show ?thesis using True
        by auto
    qed
  qed
qed

lemma serialPaths_eq:
  "serialPaths name prefix n ext =
     (baseNoExt name prefix n, baseNoExt name prefix n @ ''.lock'', baseNoExt name prefix n @ ext)"
  by (simp add: serialPaths_def baseNoExt_def Let_def)

lemma isRealSerialUsed_iff:
  "isRealSerialUsed P d base \<longleftrightarrow>
     (\<exists>nm \<in> entry_names d. nm = base \<or>
        (\<exists>e. nm = base @ ''.'' @ e \<and> toLowerCase P e \<noteq> ''lock'' \<and> toLowerCase P e \<noteq> ''serial''))"
  by (cases d) (simp_all add: isRealSerialUsed_def readdir_def entry_names_def scan_names_iff)

lemma entry_names_rmrf: "entry_names (rmrf nm d) = entry_names d - {nm}"
  by (cases d) (auto simp: rmrf_def entry_names_def)

lemma mkdir_Inr:
  "mkdir now nm d = Inr d' \<Longrightarrow> nm \<notin> entry_names d \<and> entry_names d' = insert nm (entry_names d)"
  by (cases d) (force simp: mkdir_def entry_names_def split: if_splits)+

lemma mkdir_EEXIST: "mkdir now nm d = Inl EEXIST \<longleftrightarrow> nm \<in> entry_names d"
  by (cases d) (auto simp: mkdir_def entry_names_def)

lemma stat_Inr_iff: "(\<exists>st. stat nm d = Inr st) \<longleftrightarrow> nm \<in> entry_names d"
proof (cases d)
  case None
  then show ?thesis by (simp add: stat_def entry_names_def)
next
  case (Some es)
  have "(\<exists>x. map_of es nm = Some x) \<longleftrightarrow> nm \<in> fst ` set es"
    using map_of_eq_None_iff[of es nm] by auto
  with Some show ?thesis
    by (auto simp: stat_def entry_names_def split: option.splits)
qed

lemma tryRemoveStaleLock_names:
  "entry_names d - {lockDir} \<subseteq> entry_names (snd (tryRemoveStaleLock P now lockDir d)) \<and>
   entry_names (snd (tryRemoveStaleLock P now lockDir d)) \<subseteq> entry_names d"
  by (auto simp: tryRemoveStaleLock_def entry_names_rmrf split: sum.splits)

lemma reserve_step_Continue_names:
  assumes "reserve_step P now name prefix ext n d = Continue d'"
  shows "entry_names d - {baseNoExt name prefix n @ ''.lock''} \<subseteq> entry_names d'"
  using assms tryRemoveStaleLock_names[of d "baseNoExt name prefix n @ ''.lock''" P now]
  by (auto simp: reserve_step_def serialPaths_eq entry_names_rmrf
      dest!: mkdir_Inr split: if_splits sum.splits)

lemma reserve_step_Return:
  assumes "reserve_step P now name prefix ext n d = Return r d'"
  shows "r = (baseNoExt name prefix n @ ext, baseNoExt name prefix n @ ''.lock'', n) \<and>
         \<not> isRealSerialUsed P d' (baseNoExt name prefix n) \<and>
         entry_names d' = insert (baseNoExt name prefix n @ ''.lock'') (entry_names d) \<and>
         baseNoExt name prefix n @ ''.lock'' \<notin> entry_names d"
  using assms
  by (auto simp: reserve_step_def serialPaths_eq dest!: mkdir_Inr split: if_splits sum.splits)

lemma reserve_loop_Inr:
  "reserve_loop P clock name prefix ext n d k = (Inr (fp, ld, m), d', k') \<Longrightarrow>
     fp = baseNoExt name prefix m @ ext \<and> ld = baseNoExt name prefix m @ ''.lock'' \<and>
     \<not> isRealSerialUsed P d' (baseNoExt name prefix m) \<and>
     ld \<in> entry_names d' \<and>
     (\<forall>nm \<in> entry_names d. nm \<in> entry_names d' \<or> (\<exists>j. n \<le> j \<and> j < m \<and> nm = baseNoExt name prefix j @ ''.lock''))"
proof (induction P clock name prefix ext n d k rule: reserve_loop.induct)
  case (1 P clock name prefix ext n d k)
  show ?case
  proof (cases "n < 1000000")
    case False
    with "1.prems" show ?thesis
      by (simp add: reserve_loop.simps)
  next
    case True
    show ?thesis
    proof (cases "reserve_step P (clock n) name prefix ext n d")
      case (Continue d1)
      with True "1.prems" have rec: "reserve_loop P clock name prefix ext (Suc n) d1 (Suc k) = (Inr (fp, ld, m), d', k')"
        by (simp add: reserve_loop.simps)
      note ih = "1.IH"[OF True Continue rec]
      have frame: "entry_names d - {baseNoExt name prefix n @ ''.lock''} \<subseteq> entry_names d1"
        using reserve_step_Continue_names[OF Continue] .
      from reserve_loop_probes[OF rec] True have nm: "Suc n \<le> m"
        by simp
      have "\<forall>nm \<in> entry_names d. nm \<in> entry_names d' \<or> (\<exists>j. n \<le> j \<and> j < m \<and> nm = baseNoExt name prefix j @ ''.lock'')"
      proof
        fix x assume x: "x \<in> entry_names d"
        show "x \<in> entry_names d' \<or> (\<exists>j. n \<le> j \<and> j < m \<and> x = baseNoExt name prefix j @ ''.lock'')"
        proof (cases "x = baseNoExt name prefix n @ ''.lock''")
          case True
          with nm show ?thesis by auto
        next
          case False
          with x frame have "x \<in> entry_names d1" by auto
          moreover from ih have "\<forall>nm \<in> entry_names d1. nm \<in> entry_names d' \<or> (\<exists>j. Suc n \<le> j \<and> j < m \<and> nm = baseNoExt name prefix j @ ''.lock'')"
            by blast
          ultimately have "x \<in> entry_names d' \<or> (\<exists>j. Suc n \<le> j \<and> j < m \<and> x = baseNoExt name prefix j @ ''.lock'')"
            by blast
          then show ?thesis using Suc_leD by blast
        qed
      qed
      with ih show ?thesis by blast
    next
      case (Return x d1)
      with True "1.prems" have "x = (fp, ld, m)" "d' = d1"
        by (simp_all add: reserve_loop.simps)
      with reserve_step_Return[OF Return] show ?thesis
        by auto
    next
      case (Throw e d1)
      with True "1.prems" show ?thesis
        by (simp add: reserve_loop.simps)
    qed
  qed
qed


lemma reserve_loop_Continue:
  "n < 1000000 \<Longrightarrow> reserve_step P (clock n) name prefix ext n d = Continue d' \<Longrightarrow>
     reserve_loop P clock name prefix ext n d k = reserve_loop P clock name prefix ext (Suc n) d' (Suc k)"
  by (subst reserve_loop.simps) simp

lemma reserve_loop_Return:
  "n < 1000000 \<Longrightarrow> reserve_step P (clock n) name prefix ext n d = Return r d' \<Longrightarrow>
     reserve_loop P clock name prefix ext n d k = (Inr r, d', Suc k)"
  by (subst reserve_loop.simps) simp


lemma reserve_loop_all_used:
  "\<forall>j. n \<le> j \<and> j < 1000000 \<longrightarrow> isRealSerialUsed P d (baseNoExt name prefix j) \<Longrightarrow>
   n \<le> 1000000 \<Longrightarrow>
   reserve_loop P clock name prefix ext n d k = (Inl AllocationExhausted, d, k + (1000000 - n))"
proof (induction P clock name prefix ext n d k rule: reserve_loop.induct)
  case (1 P clock name prefix ext n d k)
  show ?case
  proof (cases "n < 1000000")
    case False
    with "1.prems" show ?thesis
      by (simp add: reserve_loop.simps)
  next
    case True
    with "1.prems"(1) have "isRealSerialUsed P d (baseNoExt name prefix n)"
      by simp
    then have step: "reserve_step P (clock n) name prefix ext n d = Continue d"
      by (simp add: reserve_step_def serialPaths_eq)
    from "1.prems"(1) have rest: "\<forall>j. Suc n \<le> j \<and> j < 1000000 \<longrightarrow> isRealSerialUsed P d (baseNoExt name prefix j)"
      by simp
    from True have le: "Suc n \<le> 1000000" by simp
    have "reserve_loop P clock name prefix ext n d k = reserve_loop P clock name prefix ext (Suc n) d (Suc k)"
      using True step by (rule reserve_loop_Continue)
    also have "\<dots> = (Inl AllocationExhausted, d, Suc k + (1000000 - Suc n))"
      by (rule "1.IH"[OF True step rest le])
    finally show ?thesis
      using True by simp
  qed
qed

text \<open>
  What the allocator ensures of the serial it returns. When \<open>reserveSerialPath\<close> returns
  serial \<open>n\<close>, the directory as the call leaves it lists no entry named
  \<^verbatim>\<open><owner>_<PREFIX>-<NNNN>\<close> exactly, and none named so followed by a dot and a rest,
  unless the rest is \<^verbatim>\<open>lock\<close> or \<^verbatim>\<open>serial\<close> once \<^verbatim>\<open>toLowerCase\<close> is applied
  (whatever the extension \<open>ext\<close> of the request). Every entry the directory listed at the
  call is still listed then, except reservation markers of earlier candidates that the
  call cleared as stale. An entry whose rest is \<^verbatim>\<open>lock\<close> or \<^verbatim>\<open>serial\<close> never counts,
  whether it is a marker, a placeholder or a stored upload.
\<close>

lemma returned_serial_unmatched:
  assumes "reserveSerialPath P clock baseDir name isVid ext = (Inr (finalPath, lockDir, n), d', k)"
  shows "finalPath = baseNoExt name (if isVid then ''VID'' else ''IMG'') n @ ext \<and>
         lockDir = baseNoExt name (if isVid then ''VID'' else ''IMG'') n @ ''.lock'' \<and>
         \<not> (\<exists>nm \<in> entry_names d'.
               nm = baseNoExt name (if isVid then ''VID'' else ''IMG'') n \<or>
               (\<exists>e. nm = baseNoExt name (if isVid then ''VID'' else ''IMG'') n @ ''.'' @ e \<and>
                    toLowerCase P e \<noteq> ''lock'' \<and> toLowerCase P e \<noteq> ''serial'')) \<and>
         (\<forall>nm \<in> entry_names baseDir. nm \<in> entry_names d' \<or>
               (\<exists>j < n. nm = baseNoExt name (if isVid then ''VID'' else ''IMG'') j @ ''.lock''))"
  using reserve_loop_Inr[of P clock name "if isVid then ''VID'' else ''IMG''" ext 0 baseDir 0 finalPath lockDir n d' k] assms
  unfolding reserveSerialPath_def Let_def isRealSerialUsed_iff
  by simp

text \<open>
  Claim C9. \<open>reserveSerialPath\<close> is a total function: its loop was shown to terminate where
  it is defined. It returns a reserved path for a serial below one million, or an error.
  The body of its loop is entered at most one million times, once for each candidate up to
  the one returned; the error \<^verbatim>\<open>Could not allocate unique serial\<close> is raised only when
  all one million candidates have been probed, and it is raised when all of them are in use.
\<close>

theorem reserve_terminates_within_bound:
  "(reserveSerialPath P clock baseDir name isVid ext = (r, d', k)
     \<longrightarrow> k \<le> 1000000 \<and>
         (r = Inl AllocationExhausted \<longrightarrow> k = 1000000) \<and>
         (\<forall>fp ld n. r = Inr (fp, ld, n) \<longrightarrow> n < 1000000 \<and> k = Suc n))
   \<and> ((\<forall>n < 1000000. isRealSerialUsed P baseDir (baseNoExt name (if isVid then ''VID'' else ''IMG'') n))
     \<longrightarrow> reserveSerialPath P clock baseDir name isVid ext = (Inl AllocationExhausted, baseDir, 1000000))"
  (is "?bound \<and> ?exhausted")
proof
  show ?bound
    using reserve_loop_probes[of P clock name "if isVid then ''VID'' else ''IMG''" ext 0 baseDir 0 r d' k]
    unfolding reserveSerialPath_def Let_def
    by simp
  show ?exhausted
    using reserve_loop_all_used[of 0 P baseDir name "if isVid then ''VID'' else ''IMG''" clock ext 0]
    unfolding reserveSerialPath_def Let_def
    by simp
qed

theorem reserve_terminates_within_bound_witness:
  "reserveSerialPath test_platform (\<lambda>n. 0) (Some []) ''Ann'' True ''.mp4''
     = (Inr (''Ann_VID-0000.mp4'', ''Ann_VID-0000.lock'', 0), Some [(''Ann_VID-0000.lock'', Dir 0)], Suc 0)
   \<and> Suc 0 \<le> 1000000 \<and> (0::nat) < 1000000
   \<and> reserveSerialPath test_platform (\<lambda>n. 0)
         (Some (map (\<lambda>n. (baseNoExt ''Ann'' ''IMG'' n, File 0 [])) [0..<1000000])) ''Ann'' False ''.jpg''
     = (Inl AllocationExhausted,
        Some (map (\<lambda>n. (baseNoExt ''Ann'' ''IMG'' n, File 0 [])) [0..<1000000]), 1000000)"
proof -
  let ?full = "Some (map (\<lambda>n. (baseNoExt ''Ann'' ''IMG'' n, File 0 [])) [0..<1000000])"
  have s0: "reserve_step test_platform 0 ''Ann'' ''VID'' ''.mp4'' 0 (Some [])
              = Return (''Ann_VID-0000.mp4'', ''Ann_VID-0000.lock'', 0) (Some [(''Ann_VID-0000.lock'', Dir 0)])"
    by code_simp
  have run: "reserveSerialPath test_platform (\<lambda>n. 0) (Some []) ''Ann'' True ''.mp4''
     = (Inr (''Ann_VID-0000.mp4'', ''Ann_VID-0000.lock'', 0), Some [(''Ann_VID-0000.lock'', Dir 0)], Suc 0)"
    unfolding reserveSerialPath_def Let_def
    by (simp add: reserve_loop_Return s0)
  from reserve_terminates_within_bound[of test_platform "\<lambda>n. 0" "Some []" "''Ann''" True "''.mp4''"
        "Inr (''Ann_VID-0000.mp4'', ''Ann_VID-0000.lock'', 0)" "Some [(''Ann_VID-0000.lock'', Dir 0)]" "Suc 0"] run
  have bound: "Suc 0 \<le> 1000000" "(0::nat) < 1000000"
    by blast+
  have names: "entry_names ?full = (\<lambda>n. baseNoExt ''Ann'' ''IMG'' n) ` {0..<1000000}"
    by (simp only: entry_names_def option.case set_map image_image fst_conv set_upt)
  have used: "\<forall>n < 1000000. isRealSerialUsed test_platform ?full (baseNoExt ''Ann'' (if False then ''VID'' else ''IMG'') n)"
    unfolding isRealSerialUsed_iff names by auto
  from reserve_terminates_within_bound[of test_platform "\<lambda>n. 0" ?full "''Ann''" False "''.jpg''"] used
  have exh: "reserveSerialPath test_platform (\<lambda>n. 0) ?full ''Ann'' False ''.jpg''
          = (Inl AllocationExhausted, ?full, 1000000)"
    by blast
  show ?thesis
    by (rule conjI[OF run conjI[OF bound(1) conjI[OF bound(2) exh]]])
qed

text \<open>
  Claim C4, as the code has it. When candidate \<open>n\<close> is not in use and its marker exists,
  \<^verbatim>\<open>mkdir\<close> fails with \<^verbatim>\<open>EEXIST\<close>. A marker older than \<^verbatim>\<open>LOCK_TTL\<close> is removed, a younger
  one is left; in both cases the loop goes on with candidate \<open>n + 1\<close>. The candidate
  whose stale marker was cleared is free for a later call, not retried by this one.
\<close>

theorem stale_marker_advances:
  assumes "n < 1000000"
    and "\<not> isRealSerialUsed P d (baseNoExt name prefix n)"
    and "stat (baseNoExt name prefix n @ ''.lock'') d = Inr st"
  shows "reserve_loop P clock name prefix ext n d k =
           reserve_loop P clock name prefix ext (Suc n)
             (if clock n - mtimeMs st > LOCK_TTL P then rmrf (baseNoExt name prefix n @ ''.lock'') d else d) (Suc k)"
proof -
  from assms(3) have "baseNoExt name prefix n @ ''.lock'' \<in> entry_names d"
    using stat_Inr_iff by blast
  then have mk: "mkdir (clock n) (baseNoExt name prefix n @ ''.lock'') d = Inl EEXIST"
    by (simp add: mkdir_EEXIST)
  have "reserve_step P (clock n) name prefix ext n d =
          Continue (if clock n - mtimeMs st > LOCK_TTL P then rmrf (baseNoExt name prefix n @ ''.lock'') d else d)"
    using assms(2,3) mk by (simp add: reserve_step_def serialPaths_eq tryRemoveStaleLock_def)
  with assms(1) show ?thesis
    by (subst reserve_loop.simps) simp
qed


theorem stale_marker_advances_witness:
  "(0::nat) < 1000000
   \<and> \<not> isRealSerialUsed test_platform (Some [(''Bob_IMG-0000.lock'', Dir 0)]) (baseNoExt ''Bob'' ''IMG'' 0)
   \<and> stat (baseNoExt ''Bob'' ''IMG'' 0 @ ''.lock'') (Some [(''Bob_IMG-0000.lock'', Dir 0)]) = Inr (Dir 0)
   \<and> reserve_loop test_platform (\<lambda>n. 700000) ''Bob'' ''IMG'' ''.jpg'' 0 (Some [(''Bob_IMG-0000.lock'', Dir 0)]) 0
       = reserve_loop test_platform (\<lambda>n. 700000) ''Bob'' ''IMG'' ''.jpg'' (Suc 0) (Some []) (Suc 0)"
proof -
  let ?d = "Some [(''Bob_IMG-0000.lock'', Dir 0)]"
  have b: "baseNoExt ''Bob'' ''IMG'' 0 = ''Bob_IMG-0000''"
    by code_simp
  have h1: "(0::nat) < 1000000"
    by simp
  have h2: "\<not> isRealSerialUsed test_platform ?d (baseNoExt ''Bob'' ''IMG'' 0)"
    by code_simp
  have h3: "stat (baseNoExt ''Bob'' ''IMG'' 0 @ ''.lock'') ?d = Inr (Dir 0)"
    by code_simp
  have r: "rmrf (baseNoExt ''Bob'' ''IMG'' 0 @ ''.lock'') ?d = Some []"
    by code_simp
  have t: "LOCK_TTL test_platform = 600000"
    by (simp add: test_platform_def LOCK_TTL_default_def)
  from stale_marker_advances[OF h1 h2 h3, of "\<lambda>n. 700000" "''.jpg''" 0] h1 h2 h3 show ?thesis
    by (simp add: r t)
qed

text \<open>
  The claim as the specification states it fails: the marker of candidate 0 is ten minutes
  and more old, it is removed, and the call returns candidate 1, leaving serial 0 unused
  and unmarked.
\<close>

theorem stale_marker_counterexample:
  "reserveSerialPath test_platform (\<lambda>n. 700000) (Some [(''Bob_IMG-0000.lock'', Dir 0)]) ''Bob'' False ''.jpg''
     = (Inr (''Bob_IMG-0001.jpg'', ''Bob_IMG-0001.lock'', 1), Some [(''Bob_IMG-0001.lock'', Dir 700000)], 2)"
proof -
  have s0: "reserve_step test_platform 700000 ''Bob'' ''IMG'' ''.jpg'' 0 (Some [(''Bob_IMG-0000.lock'', Dir 0)])
              = Continue (Some [])"
    by code_simp
  have s1: "reserve_step test_platform 700000 ''Bob'' ''IMG'' ''.jpg'' (Suc 0) (Some [])
              = Return (''Bob_IMG-0001.jpg'', ''Bob_IMG-0001.lock'', 1) (Some [(''Bob_IMG-0001.lock'', Dir 700000)])"
    by code_simp
  show ?thesis
    unfolding reserveSerialPath_def Let_def
    by (simp add: reserve_loop_Continue[where d'="Some []"] reserve_loop_Return s0 s1)
qed

section \<open>Properties of assembly and finalize\<close>

text \<open>Values of the test platform and the test server, and of some strings, for concrete runs.\<close>

lemma test_platform_simps [simp]:
  "sha256hex test_platform b = ''sha:'' @ b"
  "extname test_platform f = dropWhile (\<lambda>c. c \<noteq> CHR ''.'') f"
  "toLowerCase test_platform e = e"
  "LOCK_TTL test_platform = 600000"
  by (simp_all add: test_platform_def LOCK_TTL_default_def)

lemma test_server_simps [simp]:
  "users test_server = [''key1'' \<mapsto> ''Bob'']"
  "uploads test_server = Some []"
  "tmpFiles test_server = Map.empty"
  "chunkFiles test_server = Map.empty"
  "manifestFiles test_server = Map.empty"
  "uploadLog test_server = []"
  "logFile test_server = None"
  "hashIndex test_server = Map.empty"
  by (simp_all add: test_server_def)

lemma chunk_paths_u1:
  "getChunkPath ''u1'' (Num 0) = ''u1_chunk_0''"
  "getChunkPath ''u1'' (Num 1) = ''u1_chunk_1''"
  "getChunkPath ''u1'' (Num 2) = ''u1_chunk_2''"
  by code_simp+


lemma field_values:
  "trim ''nokey'' = ''nokey''" "trim ''key1'' = ''key1''" "trim ''u1'' = ''u1''"
  "parseInt ''0'' = Num 0" "parseInt ''3'' = Num 3" "parseInt ''1'' = Num 1"
  by code_simp+

lemma of_char_digit_char: "d < 10 \<Longrightarrow> of_char (digit_char d) - 48 = (d::nat)"
  by (simp add: digit_char_def)

lemma undecimal_snoc: "undecimal (s @ [c]) = 10 * undecimal s + (of_char c - 48)"
  by (simp add: undecimal_def)

lemma undecimal_decimal: "undecimal (decimal n) = n"
proof (induction n rule: decimal.induct)
  case (1 n)
  show ?case
  proof (cases "n < 10")
    case True
    then show ?thesis
      by (subst decimal.simps) (simp add: undecimal_def of_char_digit_char)
  next
    case False
    with 1 have "undecimal (decimal (n div 10)) = n div 10" by simp
    with False show ?thesis
      by (subst decimal.simps) (simp add: undecimal_snoc of_char_digit_char)
  qed
qed

lemma decimal_inject: "decimal a = decimal b \<longleftrightarrow> a = b"
  by (metis undecimal_decimal)

lemma getChunkPath_nat_inject:
  "getChunkPath uid (Num (int i)) = getChunkPath uid (Num (int j)) \<longleftrightarrow> i = j"
  by (simp add: getChunkPath_def decimal_inject)

lemma consumed_0: "consumed uid i 0 cf = cf"
  by (simp add: consumed_def)

lemma consumed_Suc:
  "consumed uid (Suc i) n (cf(getChunkPath uid (Num (int i)) := None)) = consumed uid i (Suc n) cf"
proof
  fix p
  have "{i..<i + Suc n} = insert i {Suc i..<Suc i + n}" by auto
  then show "consumed uid (Suc i) n (cf(getChunkPath uid (Num (int i)) := None)) p = consumed uid i (Suc n) cf p"
    by (auto simp: consumed_def)
qed

lemma assemble_loop_present:
  "\<forall>j < length cs. cf (getChunkPath uid (Num (int (i + j)))) = Some (cs ! j) \<Longrightarrow>
   int (i + length cs) \<le> tot \<Longrightarrow>
   assemble_loop uid tot i cf out fed =
     assemble_loop uid tot (i + length cs) (consumed uid i (length cs) cf) (out @ concat cs) (fed @ concat cs)"
proof (induction cs arbitrary: i cf out fed)
  case Nil
  show ?case by (simp add: consumed_0)
next
  case (Cons c cs)
  from Cons.prems(1) have c: "cf (getChunkPath uid (Num (int i))) = Some c"
    by force
  have rest: "\<forall>j < length cs. (cf(getChunkPath uid (Num (int i)) := None)) (getChunkPath uid (Num (int (Suc i + j)))) = Some (cs ! j)"
  proof (intro allI impI)
    fix j assume j: "j < length cs"
    have "getChunkPath uid (Num (int (Suc i + j))) \<noteq> getChunkPath uid (Num (int i))"
      unfolding getChunkPath_nat_inject by simp
    moreover from Cons.prems(1) j have "cf (getChunkPath uid (Num (int (i + Suc j)))) = Some ((c # cs) ! Suc j)"
      by (metis Suc_less_eq length_Cons)
    ultimately show "(cf(getChunkPath uid (Num (int i)) := None)) (getChunkPath uid (Num (int (Suc i + j)))) = Some (cs ! j)"
      by simp
  qed
  from Cons.prems(2) have lt: "int i < tot" and le: "int (Suc i + length cs) \<le> tot"
    by simp_all
  have "assemble_loop uid tot i cf out fed =
          assemble_loop uid tot (Suc i) (cf(getChunkPath uid (Num (int i)) := None)) (out @ c) (fed @ c)"
    using lt c by (subst assemble_loop.simps) simp
  also have "\<dots> = assemble_loop uid tot (Suc i + length cs)
        (consumed uid (Suc i) (length cs) (cf(getChunkPath uid (Num (int i)) := None)))
        ((out @ c) @ concat cs) ((fed @ c) @ concat cs)"
    by (rule Cons.IH[OF rest le])
  finally show ?case
    by (simp add: consumed_Suc)
qed

lemma assemble_loop_complete:
  assumes "\<forall>j < length cs. cf (getChunkPath uid (Num (int j))) = Some (cs ! j)"
  shows "assemble_loop uid (int (length cs)) 0 cf [] [] =
           (Inr (), consumed uid 0 (length cs) cf, concat cs, concat cs)"
proof -
  have "assemble_loop uid (int (length cs)) 0 cf [] [] =
          assemble_loop uid (int (length cs)) (0 + length cs) (consumed uid 0 (length cs) cf) ([] @ concat cs) ([] @ concat cs)"
    by (rule assemble_loop_present) (use assms in simp_all)
  also have "\<dots> = (Inr (), consumed uid 0 (length cs) cf, concat cs, concat cs)"
    by (subst assemble_loop.simps) simp
  finally show ?thesis .
qed

lemma assemble_loop_missing:
  assumes "\<forall>j < length cs. cf (getChunkPath uid (Num (int j))) = Some (cs ! j)"
    and "cf (getChunkPath uid (Num (int (length cs)))) = None"
    and "int (length cs) < tot"
  shows "assemble_loop uid tot 0 cf [] [] =
           (Inl (MissingChunk (length cs)), consumed uid 0 (length cs) cf, concat cs, concat cs)"
proof -
  have miss: "consumed uid 0 (length cs) cf (getChunkPath uid (Num (int (length cs)))) = None"
    by (simp add: consumed_def assms(2))
  have "assemble_loop uid tot 0 cf [] [] =
          assemble_loop uid tot (0 + length cs) (consumed uid 0 (length cs) cf) ([] @ concat cs) ([] @ concat cs)"
    by (rule assemble_loop_present) (use assms in simp_all)
  also have "\<dots> = (Inl (MissingChunk (length cs)), consumed uid 0 (length cs) cf, concat cs, concat cs)"
    using assms(3) miss by (subst assemble_loop.simps) simp
  finally show ?thesis .
qed

lemma assembleChunksToTemp_complete:
  assumes "\<forall>j < length cs. chunkFiles s (getChunkPath uid (Num (int j))) = Some (cs ! j)"
  shows "assembleChunksToTemp P uid (int (length cs)) tmpOutPath s =
           (Inr (sha256hex P (concat cs)),
            s\<lparr>chunkFiles := consumed uid 0 (length cs) (chunkFiles s),
              tmpFiles := (tmpFiles s)(tmpOutPath \<mapsto> concat cs)\<rparr>)"
  by (simp add: assembleChunksToTemp_def assemble_loop_complete[OF assms])

lemma assembleChunksToTemp_missing:
  assumes "\<forall>j < length cs. chunkFiles s (getChunkPath uid (Num (int j))) = Some (cs ! j)"
    and "chunkFiles s (getChunkPath uid (Num (int (length cs)))) = None"
    and "int (length cs) < tot"
  shows "assembleChunksToTemp P uid tot tmpOutPath s =
           (Inl (MissingChunk (length cs)),
            s\<lparr>chunkFiles := consumed uid 0 (length cs) (chunkFiles s),
              tmpFiles := (tmpFiles s)(tmpOutPath \<mapsto> concat cs)\<rparr>)"
  by (simp add: assembleChunksToTemp_def assemble_loop_missing[OF assms])

lemma map_of_put: "map_of (put nm x es) nm = Some x"
proof -
  have "nm \<in> fst ` set es \<Longrightarrow> map_of (map (\<lambda>e. if fst e = nm then (nm, x) else e) es) nm = Some x"
    by (induction es) auto
  moreover have "nm \<notin> fst ` set es \<Longrightarrow> map_of (es @ [(nm, x)]) nm = Some x"
    by (induction es) auto
  ultimately show ?thesis
    by (simp add: put_def)
qed

lemma map_of_filter_other: "k' \<noteq> k \<Longrightarrow> map_of (filter (\<lambda>e. fst e \<noteq> k) es) k' = map_of es k'"
  by (induction es) auto

lemma stat_Some: "stat nm (Some es) = (case map_of es nm of None \<Rightarrow> Inl ENOENT | Some x \<Rightarrow> Inr x)"
  by (simp add: stat_def)

lemma mkdir_Inr_stat: "mkdir now nm d = Inr d' \<Longrightarrow> stat nm d' = Inr (Dir now)"
proof (cases d)
  case None
  assume "mkdir now nm d = Inr d'"
  with None show ?thesis by (simp add: mkdir_def)
next
  case (Some es)
  assume mk: "mkdir now nm d = Inr d'"
  with Some have nm: "nm \<notin> fst ` set es" and d': "d' = Some (es @ [(nm, Dir now)])"
    by (auto simp: mkdir_def split: if_splits)
  from nm have "map_of es nm = None"
    by (simp add: map_of_eq_None_iff)
  with d' show ?thesis
    by (simp add: stat_def map_add_def)
qed

lemma reserve_step_Return_stat:
  assumes "reserve_step P now name prefix ext n d = Return (fp, ld, m) d'"
  shows "stat ld d' = Inr (Dir now)"
  using assms
  by (auto simp: reserve_step_def serialPaths_eq dest: mkdir_Inr_stat split: if_splits sum.splits)

lemma reserve_loop_Inr_stat:
  "reserve_loop P clock name prefix ext n d k = (Inr (fp, ld, m), d', k') \<Longrightarrow>
     stat ld d' = Inr (Dir (clock m))"
proof (induction P clock name prefix ext n d k rule: reserve_loop.induct)
  case (1 P clock name prefix ext n d k)
  show ?case
  proof (cases "n < 1000000")
    case False
    with "1.prems" show ?thesis
      by (simp add: reserve_loop.simps)
  next
    case True
    show ?thesis
    proof (cases "reserve_step P (clock n) name prefix ext n d")
      case (Continue d1)
      with True "1.prems" have "reserve_loop P clock name prefix ext (Suc n) d1 (Suc k) = (Inr (fp, ld, m), d', k')"
        by (simp add: reserve_loop.simps)
      from "1.IH"[OF True Continue this] show ?thesis .
    next
      case (Return x d1)
      with True "1.prems" have x: "x = (fp, ld, m)" "d' = d1"
        by (simp_all add: reserve_loop.simps)
      with reserve_step_Return[OF Return] have "m = n" by simp
      with reserve_step_Return_stat[of P "clock n" name prefix ext n d fp ld m d1] Return x show ?thesis
        by simp
    next
      case (Throw e d1)
      with True "1.prems" show ?thesis
        by (simp add: reserve_loop.simps)
    qed
  qed
qed

lemma reserveSerialPath_Inr_stat:
  "reserveSerialPath P clock baseDir name isVid ext = (Inr (fp, ld, m), d', k) \<Longrightarrow>
     \<exists>t. stat ld d' = Inr (Dir t)"
  unfolding reserveSerialPath_def Let_def
  by (blast dest: reserve_loop_Inr_stat)

lemma finalizeReservation_Inr:
  assumes "finalizeReservation now tmpPath finalPath lockDir s = (Inr u, s2)"
    and "stat lockDir (uploads s) = Inr (Dir t)"
  shows "\<exists>b. tmpFiles s tmpPath = Some b \<and> stat finalPath (uploads s2) = Inr (File now b) \<and>
             s2 = s\<lparr>tmpFiles := (tmpFiles s)(tmpPath := None), uploads := uploads s2\<rparr>"
proof -
  from assms(1) obtain b es where b: "tmpFiles s tmpPath = Some b" and es: "uploads s = Some es"
    and nd: "\<forall>t. map_of es finalPath \<noteq> Some (Dir t)"
    and s2: "s2 = s\<lparr>tmpFiles := (tmpFiles s)(tmpPath := None),
                    uploads := rmrf lockDir (Some (put finalPath (File now b) es))\<rparr>"
    by (auto simp: finalizeReservation_def split: option.splits node.splits)
  from assms(2) es have "map_of es lockDir = Some (Dir t)"
    by (auto simp: stat_def split: option.splits)
  with nd have ne: "finalPath \<noteq> lockDir"
    by auto
  have "stat finalPath (uploads s2) = Inr (File now b)"
    using ne by (simp add: s2 rmrf_def stat_def map_of_filter_other map_of_put)
  with b s2 show ?thesis
    by simp
qed

lemma finalizeReservation_Inl:
  "finalizeReservation now tmpPath finalPath lockDir s = (Inl e, s2) \<Longrightarrow>
     s2 = s\<lparr>uploads := rmrf lockDir (uploads s)\<rparr>"
  by (auto simp: finalizeReservation_def split: option.splits node.splits)





lemma abc_chunks:
  "\<forall>j < length [''A'', ''B'', ''C''].
      chunkFiles (test_server\<lparr>chunkFiles := [''u1_chunk_0'' \<mapsto> ''A'', ''u1_chunk_1'' \<mapsto> ''B'', ''u1_chunk_2'' \<mapsto> ''C'']\<rparr>)
        (getChunkPath ''u1'' (Num (int j))) = Some ([''A'', ''B'', ''C''] ! j)"
proof (intro allI impI)
  fix j assume "j < length [''A'', ''B'', ''C'']"
  then consider "j = 0" | "j = 1" | "j = 2" by fastforce
  then show "chunkFiles (test_server\<lparr>chunkFiles := [''u1_chunk_0'' \<mapsto> ''A'', ''u1_chunk_1'' \<mapsto> ''B'', ''u1_chunk_2'' \<mapsto> ''C'']\<rparr>)
        (getChunkPath ''u1'' (Num (int j))) = Some ([''A'', ''B'', ''C''] ! j)"
    by cases (simp_all add: chunk_paths_u1)
qed

lemma abc_run:
  "fst (upload_manifest test_platform ''U'' (\<lambda>n. 0) 7
     [Json \<lparr> req_uploadId = ''u1'', req_totalChunks = 3, req_filename = ''pic.jpg'',
              req_authKey = ''key1'', req_isVideo = False \<rparr>]
     (test_server\<lparr>chunkFiles := [''u1_chunk_0'' \<mapsto> ''A'', ''u1_chunk_1'' \<mapsto> ''B'', ''u1_chunk_2'' \<mapsto> ''C'']\<rparr>))
   = Ok (Saved ''Bob_IMG-0000.jpg'' ''sha:ABC'')"
proof -
  let ?s = "test_server\<lparr>chunkFiles := [''u1_chunk_0'' \<mapsto> ''A'', ''u1_chunk_1'' \<mapsto> ''B'', ''u1_chunk_2'' \<mapsto> ''C'']\<rparr>"
  let ?cs = "[''A'', ''B'', ''C'']"
  have asm: "assembleChunksToTemp test_platform ''u1'' 3 ''.merge.U.jpg'' ?s =
          (Inr ''sha:ABC'',
           ?s\<lparr>chunkFiles := consumed ''u1'' 0 (length ?cs) (chunkFiles ?s),
               tmpFiles := (tmpFiles ?s)(''.merge.U.jpg'' \<mapsto> concat ?cs)\<rparr>)"
    using assembleChunksToTemp_complete[OF abc_chunks, of test_platform "''.merge.U.jpg''"] by simp
  have s0: "reserve_step test_platform 0 ''Bob'' ''IMG'' ''.jpg'' 0 (Some [])
              = Return (''Bob_IMG-0000.jpg'', ''Bob_IMG-0000.lock'', 0) (Some [(''Bob_IMG-0000.lock'', Dir 0)])"
    by code_simp
  have res: "reserveSerialPath test_platform (\<lambda>n. 0) (Some []) ''Bob'' False ''.jpg''
     = (Inr (''Bob_IMG-0000.jpg'', ''Bob_IMG-0000.lock'', 0), Some [(''Bob_IMG-0000.lock'', Dir 0)], Suc 0)"
    unfolding reserveSerialPath_def Let_def
    by (simp add: reserve_loop_Return s0)
  show ?thesis
    by (simp add: upload_manifest_def Let_def lookup_truthy_def asm res finalizeReservation_def put_def rmrf_def)
qed

text \<open>
  Claim C1. When the chunk files with indices \<open>0\<close> to \<open>totalChunks - 1\<close> are all present,
  with contents \<open>cs\<close>, \<open>assembleChunksToTemp\<close> writes their concatenation in index order
  to the output file and returns the SHA-256 of that concatenation: the digest is taken
  from the bytes fed to the hasher as each chunk is read, and the output file is never read.
  The finalize request then answers with that hash and the stored file holds the
  concatenation; or it answers that the content is a duplicate of a file the hash index
  holds under that hash; or the allocator or the rename fails (500) and the merged output
  is still in the temporary directory.
\<close>

theorem finalize_assembles_in_order:
  assumes "read_manifest None parts = Inr (Some m)"
    and "req_uploadId m \<noteq> []" and "req_filename m \<noteq> []" and "req_authKey m \<noteq> []"
    and "lookup_truthy (users s) (req_authKey m) = Some user"
    and "cs \<noteq> []" and "req_totalChunks m = int (length cs)"
    and "\<forall>j < length cs. chunkFiles s (getChunkPath (req_uploadId m) (Num (int j))) = Some (cs ! j)"
  shows "assembleChunksToTemp P (req_uploadId m) (req_totalChunks m) tmpOut s =
           (Inr (sha256hex P (concat cs)),
            s\<lparr>chunkFiles := consumed (req_uploadId m) 0 (length cs) (chunkFiles s),
              tmpFiles := (tmpFiles s)(tmpOut \<mapsto> concat cs)\<rparr>)
         \<and> (case upload_manifest P uuid clock now parts s of
               (Ok (Saved name h), s') \<Rightarrow>
                 h = sha256hex P (concat cs) \<and> stat name (uploads s') = Inr (File now (concat cs))
             | (Ok (Deduped ex), s') \<Rightarrow>
                 lookup_truthy (hashIndex s) (sha256hex P (concat cs)) = Some ex
             | (Err code msg, s') \<Rightarrow>
                 code = 500 \<and>
                 tmpFiles s' (''.merge.'' @ uuid @ extname P (req_filename m)) = Some (concat cs))"
proof -
  let ?uid = "req_uploadId m"
  let ?tempOut = "''.merge.'' @ uuid @ extname P (req_filename m)"
  let ?sha = "sha256hex P (concat cs)"
  have asm: "assembleChunksToTemp P ?uid (req_totalChunks m) out s =
           (Inr ?sha,
            s\<lparr>chunkFiles := consumed ?uid 0 (length cs) (chunkFiles s),
              tmpFiles := (tmpFiles s)(out \<mapsto> concat cs)\<rparr>)" for out
    using assembleChunksToTemp_complete[OF assms(8)] assms(7) by simp
  let ?s1 = "s\<lparr>chunkFiles := consumed ?uid 0 (length cs) (chunkFiles s),
              tmpFiles := (tmpFiles s)(?tempOut \<mapsto> concat cs)\<rparr>"
  from assms(6,7) have nz: "req_totalChunks m \<noteq> 0" by simp
  have fin: "case upload_manifest P uuid clock now parts s of
               (Ok (Saved name h), s') \<Rightarrow>
                 h = ?sha \<and> stat name (uploads s') = Inr (File now (concat cs))
             | (Ok (Deduped ex), s') \<Rightarrow> lookup_truthy (hashIndex s) ?sha = Some ex
             | (Err code msg, s') \<Rightarrow> code = 500 \<and> tmpFiles s' ?tempOut = Some (concat cs)"
  proof (cases "lookup_truthy (hashIndex s) ?sha")
    case (Some ex)
    then show ?thesis
      using assms(1-5) nz asm[of ?tempOut]
      by (simp add: upload_manifest_def Let_def)
  next
    case None
    show ?thesis
    proof (cases "reserveSerialPath P clock (uploads s) user (req_isVideo m) (extname P (req_filename m))")
      case (fields r d k)
      show ?thesis
      proof (cases r)
        case (Inl e)
        with fields None show ?thesis
          using assms(1-5) nz asm[of ?tempOut]
          by (simp add: upload_manifest_def Let_def)
      next
        case (Inr x)
        obtain fp ld n where x: "x = (fp, ld, n)" by (cases x) auto
        from fields Inr x obtain t where st: "stat ld d = Inr (Dir t)"
          using reserveSerialPath_Inr_stat by blast
        show ?thesis
        proof (cases "finalizeReservation now ?tempOut fp ld (?s1\<lparr>uploads := d\<rparr>)")
          case (Pair r2 s2)
          show ?thesis
          proof (cases r2)
            case (Inl e)
            with Pair have "s2 = ?s1\<lparr>uploads := d\<rparr>\<lparr>uploads := rmrf ld (uploads (?s1\<lparr>uploads := d\<rparr>))\<rparr>"
              using finalizeReservation_Inl by blast
            then have "tmpFiles s2 ?tempOut = Some (concat cs)" by simp
            with Pair Inl fields Inr x None show ?thesis
              using assms(1-5) nz asm[of ?tempOut]
              by (simp add: upload_manifest_def Let_def)
          next
            case (Inr u)
            with Pair st have "\<exists>b. tmpFiles (?s1\<lparr>uploads := d\<rparr>) ?tempOut = Some b \<and> stat fp (uploads s2) = Inr (File now b)"
              using finalizeReservation_Inr[of now ?tempOut fp ld "?s1\<lparr>uploads := d\<rparr>" u s2 t] by auto
            then have "stat fp (uploads s2) = Inr (File now (concat cs))" by simp
            with Pair Inr fields \<open>r = Inr x\<close> x None show ?thesis
              using assms(1-5) nz asm[of ?tempOut]
              by (simp add: upload_manifest_def Let_def)
          qed
        qed
      qed
    qed
  qed
  from asm[of tmpOut] fin show ?thesis
    by blast
qed

theorem finalize_assembles_in_order_witness:
  "lookup_truthy (users test_server) ''key1'' = Some ''Bob''
   \<and> chunkFiles (test_server\<lparr>chunkFiles := [''u1_chunk_0'' \<mapsto> ''A'', ''u1_chunk_1'' \<mapsto> ''B'', ''u1_chunk_2'' \<mapsto> ''C'']\<rparr>)
        (getChunkPath ''u1'' (Num 1)) = Some ''B''
   \<and> fst (assembleChunksToTemp test_platform ''u1'' 3 ''out''
        (test_server\<lparr>chunkFiles := [''u1_chunk_0'' \<mapsto> ''A'', ''u1_chunk_1'' \<mapsto> ''B'', ''u1_chunk_2'' \<mapsto> ''C'']\<rparr>))
      = Inr ''sha:ABC''
   \<and> tmpFiles (snd (assembleChunksToTemp test_platform ''u1'' 3 ''out''
        (test_server\<lparr>chunkFiles := [''u1_chunk_0'' \<mapsto> ''A'', ''u1_chunk_1'' \<mapsto> ''B'', ''u1_chunk_2'' \<mapsto> ''C'']\<rparr>))) ''out''
      = Some ''ABC''
   \<and> fst (upload_manifest test_platform ''U'' (\<lambda>n. 0) 7
        [Json \<lparr> req_uploadId = ''u1'', req_totalChunks = 3, req_filename = ''pic.jpg'',
                 req_authKey = ''key1'', req_isVideo = False \<rparr>]
        (test_server\<lparr>chunkFiles := [''u1_chunk_0'' \<mapsto> ''A'', ''u1_chunk_1'' \<mapsto> ''B'', ''u1_chunk_2'' \<mapsto> ''C'']\<rparr>))
      = Ok (Saved ''Bob_IMG-0000.jpg'' ''sha:ABC'')
   \<and> stat ''Bob_IMG-0000.jpg'' (uploads (snd (upload_manifest test_platform ''U'' (\<lambda>n. 0) 7
        [Json \<lparr> req_uploadId = ''u1'', req_totalChunks = 3, req_filename = ''pic.jpg'',
                 req_authKey = ''key1'', req_isVideo = False \<rparr>]
        (test_server\<lparr>chunkFiles := [''u1_chunk_0'' \<mapsto> ''A'', ''u1_chunk_1'' \<mapsto> ''B'', ''u1_chunk_2'' \<mapsto> ''C'']\<rparr>))))
      = Inr (File 7 ''ABC'')"
proof -
  let ?s = "test_server\<lparr>chunkFiles := [''u1_chunk_0'' \<mapsto> ''A'', ''u1_chunk_1'' \<mapsto> ''B'', ''u1_chunk_2'' \<mapsto> ''C'']\<rparr>"
  let ?m = "\<lparr> req_uploadId = ''u1'', req_totalChunks = 3, req_filename = ''pic.jpg'',
              req_authKey = ''key1'', req_isVideo = False \<rparr>"
  let ?cs = "[''A'', ''B'', ''C'']"
  let ?run = "upload_manifest test_platform ''U'' (\<lambda>n. 0) 7 [Json ?m] ?s"
  have h1: "read_manifest None [Json ?m] = Inr (Some ?m)" by simp
  have h2: "req_uploadId ?m \<noteq> []" "req_filename ?m \<noteq> []" "req_authKey ?m \<noteq> []" by simp_all
  have h5: "lookup_truthy (users ?s) (req_authKey ?m) = Some ''Bob''"
    by (simp add: lookup_truthy_def)
  have h6: "?cs \<noteq> []" "req_totalChunks ?m = int (length ?cs)" by simp_all
  have h8: "\<forall>j < length ?cs. chunkFiles ?s (getChunkPath (req_uploadId ?m) (Num (int j))) = Some (?cs ! j)"
    using abc_chunks by simp
  note inst = finalize_assembles_in_order[where P=test_platform and tmpOut="''out''" and uuid="''U''"
      and clock="\<lambda>n. 0" and now=7, OF h1 h2 h5 h6 h8]
  from inst have asm: "assembleChunksToTemp test_platform ''u1'' 3 ''out'' ?s =
          (Inr (sha256hex test_platform (concat ?cs)),
           ?s\<lparr>chunkFiles := consumed ''u1'' 0 (length ?cs) (chunkFiles ?s),
               tmpFiles := (tmpFiles ?s)(''out'' \<mapsto> concat ?cs)\<rparr>)"
    by simp
  have reply: "fst ?run = Ok (Saved ''Bob_IMG-0000.jpg'' ''sha:ABC'')"
    by (rule abc_run)
  from inst have stored: "stat ''Bob_IMG-0000.jpg'' (uploads (snd ?run)) = Inr (File 7 (concat ?cs))"
    by (simp add: case_prod_beta reply)
  from asm reply stored show ?thesis
    by (simp add: lookup_truthy_def chunk_paths_u1)
qed

text \<open>
  Claim C2, as the code has it. Finalize checks each chunk only for existence, and only
  when its turn to be merged has come: with chunks \<open>0\<close> to \<open>i - 1\<close> present and chunk \<open>i\<close>
  missing, the assembly throws \<^verbatim>\<open>Missing chunk #i\<close> after the bytes of chunks \<open>0\<close> to
  \<open>i - 1\<close> have been written to the output, and the caller gets the fixed reply 500
  \<^verbatim>\<open>Assembly failed\<close>, which names no index.
\<close>

theorem missing_chunk_found_while_merging:
  assumes "read_manifest None parts = Inr (Some m)"
    and "req_uploadId m \<noteq> []" and "req_filename m \<noteq> []" and "req_authKey m \<noteq> []"
    and "lookup_truthy (users s) (req_authKey m) = Some user"
    and "\<forall>j < length cs. chunkFiles s (getChunkPath (req_uploadId m) (Num (int j))) = Some (cs ! j)"
    and "chunkFiles s (getChunkPath (req_uploadId m) (Num (int (length cs)))) = None"
    and "int (length cs) < req_totalChunks m"
  shows "fst (assembleChunksToTemp P (req_uploadId m) (req_totalChunks m) tmpOut s) = Inl (MissingChunk (length cs))
         \<and> tmpFiles (snd (assembleChunksToTemp P (req_uploadId m) (req_totalChunks m) tmpOut s)) tmpOut = Some (concat cs)
         \<and> fst (upload_manifest P uuid clock now parts s) = Err 500 ''Assembly failed''"
proof -
  have asm: "assembleChunksToTemp P (req_uploadId m) (req_totalChunks m) out s =
           (Inl (MissingChunk (length cs)),
            s\<lparr>chunkFiles := consumed (req_uploadId m) 0 (length cs) (chunkFiles s),
              tmpFiles := (tmpFiles s)(out \<mapsto> concat cs)\<rparr>)" for out
    by (rule assembleChunksToTemp_missing[OF assms(6,7,8)])
  from assms(8) have nz: "req_totalChunks m \<noteq> 0" by auto
  have "fst (upload_manifest P uuid clock now parts s) = Err 500 ''Assembly failed''"
    using assms(1-5) nz asm[of "''.merge.'' @ uuid @ extname P (req_filename m)"]
    by (simp add: upload_manifest_def Let_def)
  with asm[of tmpOut] show ?thesis
    by simp
qed

theorem missing_chunk_found_while_merging_witness:
  "chunkFiles (test_server\<lparr>chunkFiles := [''u1_chunk_0'' \<mapsto> ''A'', ''u1_chunk_2'' \<mapsto> '''']\<rparr>)
       (getChunkPath ''u1'' (Num 0)) = Some ''A''
   \<and> chunkFiles (test_server\<lparr>chunkFiles := [''u1_chunk_0'' \<mapsto> ''A'', ''u1_chunk_2'' \<mapsto> '''']\<rparr>)
       (getChunkPath ''u1'' (Num 1)) = None
   \<and> fst (assembleChunksToTemp test_platform ''u1'' 3 ''out''
            (test_server\<lparr>chunkFiles := [''u1_chunk_0'' \<mapsto> ''A'', ''u1_chunk_2'' \<mapsto> '''']\<rparr>))
       = Inl (MissingChunk 1)
   \<and> tmpFiles (snd (assembleChunksToTemp test_platform ''u1'' 3 ''out''
            (test_server\<lparr>chunkFiles := [''u1_chunk_0'' \<mapsto> ''A'', ''u1_chunk_2'' \<mapsto> '''']\<rparr>))) ''out''
       = Some ''A''
   \<and> fst (upload_manifest test_platform ''U'' (\<lambda>n. 0) 7
        [Json \<lparr> req_uploadId = ''u1'', req_totalChunks = 3, req_filename = ''pic.jpg'',
                 req_authKey = ''key1'', req_isVideo = False \<rparr>]
        (test_server\<lparr>chunkFiles := [''u1_chunk_0'' \<mapsto> ''A'', ''u1_chunk_2'' \<mapsto> '''']\<rparr>))
       = Err 500 ''Assembly failed''"
proof -
  let ?s = "test_server\<lparr>chunkFiles := [''u1_chunk_0'' \<mapsto> ''A'', ''u1_chunk_2'' \<mapsto> '''']\<rparr>"
  let ?m = "\<lparr> req_uploadId = ''u1'', req_totalChunks = 3, req_filename = ''pic.jpg'',
              req_authKey = ''key1'', req_isVideo = False \<rparr>"
  have h1: "read_manifest None [Json ?m] = Inr (Some ?m)" by simp
  have h2: "req_uploadId ?m \<noteq> []" "req_filename ?m \<noteq> []" "req_authKey ?m \<noteq> []" by simp_all
  have h5: "lookup_truthy (users ?s) (req_authKey ?m) = Some ''Bob''"
    by (simp add: lookup_truthy_def)
  have h6: "\<forall>j < length [''A'']. chunkFiles ?s (getChunkPath (req_uploadId ?m) (Num (int j))) = Some ([''A''] ! j)"
    by (simp add: chunk_paths_u1)
  have h7: "chunkFiles ?s (getChunkPath (req_uploadId ?m) (Num (int (length [''A''])))) = None"
    by (simp add: chunk_paths_u1)
  have h8: "int (length [''A'']) < req_totalChunks ?m" by simp
  from missing_chunk_found_while_merging[where P=test_platform and tmpOut="''out''" and uuid="''U''"
      and clock="\<lambda>n. 0" and now=7, OF h1 h2 h5 h6 h7 h8]
  show ?thesis
    by (simp add: chunk_paths_u1)
qed

lemma gap_run:
  "upload_manifest test_platform ''U'' (\<lambda>n. 0) 7
     [Json \<lparr> req_uploadId = ''u1'', req_totalChunks = 3, req_filename = ''pic.jpg'',
              req_authKey = ''key1'', req_isVideo = False \<rparr>]
     (test_server\<lparr>chunkFiles := [''u1_chunk_0'' \<mapsto> ''A'', ''u1_chunk_2'' \<mapsto> '''']\<rparr>)
   = (Err 500 ''Assembly failed'',
      test_server\<lparr>chunkFiles := consumed ''u1'' 0 (Suc 0) [''u1_chunk_0'' \<mapsto> ''A'', ''u1_chunk_2'' \<mapsto> ''''],
                  tmpFiles := [''.merge.U.jpg'' \<mapsto> ''A'']\<rparr>)"
proof -
  let ?s = "test_server\<lparr>chunkFiles := [''u1_chunk_0'' \<mapsto> ''A'', ''u1_chunk_2'' \<mapsto> '''']\<rparr>"
  have p: "\<forall>j < length [''A'']. chunkFiles ?s (getChunkPath ''u1'' (Num (int j))) = Some ([''A''] ! j)"
    by (simp add: chunk_paths_u1)
  have q: "chunkFiles ?s (getChunkPath ''u1'' (Num (int (length [''A''])))) = None"
    by (simp add: chunk_paths_u1)
  have asm: "assembleChunksToTemp test_platform ''u1'' 3 ''.merge.U.jpg'' ?s =
          (Inl (MissingChunk (length [''A''])),
           ?s\<lparr>chunkFiles := consumed ''u1'' 0 (length [''A'']) (chunkFiles ?s),
               tmpFiles := (tmpFiles ?s)(''.merge.U.jpg'' \<mapsto> concat [''A''])\<rparr>)"
    by (rule assembleChunksToTemp_missing[OF p q]) simp
  show ?thesis
    by (simp add: upload_manifest_def Let_def lookup_truthy_def asm)
qed

text \<open>
  The claim as the specification states it fails. Chunk 1 of 3 is missing and chunk 2 is
  empty: the bytes of chunk 0 are merged into the output before chunk 1 is looked for, and
  the reply is 500 \<^verbatim>\<open>Assembly failed\<close>, with no list of the indices 1 and 2.
\<close>

theorem precheck_counterexample:
  "chunkFiles (test_server\<lparr>chunkFiles := [''u1_chunk_0'' \<mapsto> ''A'', ''u1_chunk_2'' \<mapsto> '''']\<rparr>) ''u1_chunk_1'' = None
   \<and> chunkFiles (test_server\<lparr>chunkFiles := [''u1_chunk_0'' \<mapsto> ''A'', ''u1_chunk_2'' \<mapsto> '''']\<rparr>) ''u1_chunk_2'' = Some []
   \<and> fst (upload_manifest test_platform ''U'' (\<lambda>n. 0) 7
        [Json \<lparr> req_uploadId = ''u1'', req_totalChunks = 3, req_filename = ''pic.jpg'',
                 req_authKey = ''key1'', req_isVideo = False \<rparr>]
        (test_server\<lparr>chunkFiles := [''u1_chunk_0'' \<mapsto> ''A'', ''u1_chunk_2'' \<mapsto> '''']\<rparr>))
      = Err 500 ''Assembly failed''
   \<and> tmpFiles (snd (upload_manifest test_platform ''U'' (\<lambda>n. 0) 7
        [Json \<lparr> req_uploadId = ''u1'', req_totalChunks = 3, req_filename = ''pic.jpg'',
                 req_authKey = ''key1'', req_isVideo = False \<rparr>]
        (test_server\<lparr>chunkFiles := [''u1_chunk_0'' \<mapsto> ''A'', ''u1_chunk_2'' \<mapsto> '''']\<rparr>))) ''.merge.U.jpg''
      = Some ''A''"
  by (simp add: gap_run)





section \<open>Properties of deduplication\<close>

lemma duplicate_finalize:
  assumes "read_manifest None parts = Inr (Some m)"
    and "req_uploadId m \<noteq> []" and "req_filename m \<noteq> []" and "req_authKey m \<noteq> []"
    and "lookup_truthy (users s) (req_authKey m) = Some user"
    and "cs \<noteq> []" and "req_totalChunks m = int (length cs)"
    and "\<forall>j < length cs. chunkFiles s (getChunkPath (req_uploadId m) (Num (int j))) = Some (cs ! j)"
    and "lookup_truthy (hashIndex s) (sha256hex P (concat cs)) = Some existing"
    and "upload_manifest P uuid clock now parts s = (reply, s')"
  shows "reply = Ok (Deduped existing)
         \<and> uploads s' = uploads s \<and> hashIndex s' = hashIndex s
         \<and> tmpFiles s' = (tmpFiles s)(''.merge.'' @ uuid @ extname P (req_filename m) := None)
         \<and> uploadLog s' = uploadLog s @
              [\<lparr> authKey = req_authKey m, fullName = user, originalName = req_filename m,
                 savedName = existing, timestamp = now, hash = sha256hex P (concat cs), deduped = True \<rparr>]
         \<and> logFile s' = Some (uploadLog s')"
proof -
  let ?tempOut = "''.merge.'' @ uuid @ extname P (req_filename m)"
  have asm: "assembleChunksToTemp P (req_uploadId m) (req_totalChunks m) ?tempOut s =
           (Inr (sha256hex P (concat cs)),
            s\<lparr>chunkFiles := consumed (req_uploadId m) 0 (length cs) (chunkFiles s),
              tmpFiles := (tmpFiles s)(?tempOut \<mapsto> concat cs)\<rparr>)"
    using assembleChunksToTemp_complete[OF assms(8)] assms(7) by simp
  from assms(6,7) have nz: "req_totalChunks m \<noteq> 0" by simp
  from assms(10) show ?thesis
    using assms(1-5,9) nz asm
    by (auto simp: upload_manifest_def Let_def)
qed

lemma unlink_all_apply: "unlink_all ps tf p = (if p \<in> set ps then None else tf p)"
  unfolding unlink_all_def
  by (induction ps arbitrary: tf) auto

lemma unlink_all_Cons: "unlink_all (p # ps) tf = unlink_all ps (tf(p := None))"
  by (simp add: unlink_all_def)

lemma store_staged_all_hits:
  "\<forall>x \<in> set st. lookup_truthy (hashIndex s) (st_sha256 x) \<noteq> None \<Longrightarrow>
   store_staged P clock now ak user st saved s =
     (Inr saved,
      s\<lparr>tmpFiles := unlink_all (map st_tmpPath st) (tmpFiles s),
        uploadLog := uploadLog s @
          map (\<lambda>x. \<lparr> authKey = ak, fullName = user, originalName = st_originalName x,
                      savedName = the (lookup_truthy (hashIndex s) (st_sha256 x)),
                      timestamp = now, hash = st_sha256 x, deduped = True \<rparr>) st\<rparr>)"
proof (induction st arbitrary: s)
  case Nil
  show ?case by (simp add: unlink_all_def)
next
  case (Cons x xs)
  from Cons.prems obtain ex where ex: "lookup_truthy (hashIndex s) (st_sha256 x) = Some ex"
    by auto
  let ?s1 = "s\<lparr>tmpFiles := (tmpFiles s)(st_tmpPath x := None),
               uploadLog := uploadLog s @
                 [\<lparr> authKey = ak, fullName = user, originalName = st_originalName x,
                    savedName = ex, timestamp = now, hash = st_sha256 x, deduped = True \<rparr>]\<rparr>"
  from Cons.prems have hits: "\<forall>y \<in> set xs. lookup_truthy (hashIndex ?s1) (st_sha256 y) \<noteq> None"
    by simp
  have "store_staged P clock now ak user (x # xs) saved s = store_staged P clock now ak user xs saved ?s1"
    using ex by simp
  also note Cons.IH[OF hits]
  finally show ?case
    using ex by (simp add: unlink_all_Cons fun_upd_def)
qed

lemma duplicate_direct:
  assumes "foldl (stage_part P (users s)) (None, None, [], tmpFiles s) parts = (Some k, Some user, st, tf)"
    and "k \<noteq> []"
    and "\<forall>x \<in> set st. lookup_truthy (hashIndex s) (st_sha256 x) \<noteq> None"
    and "upload P clock now parts s = (reply, s')"
  shows "reply = Ok []
         \<and> uploads s' = uploads s \<and> hashIndex s' = hashIndex s
         \<and> (\<forall>x \<in> set st. tmpFiles s' (st_tmpPath x) = None)
         \<and> uploadLog s' = uploadLog s @
              map (\<lambda>x. \<lparr> authKey = k, fullName = user, originalName = st_originalName x,
                          savedName = the (lookup_truthy (hashIndex s) (st_sha256 x)),
                          timestamp = now, hash = st_sha256 x, deduped = True \<rparr>) st
         \<and> logFile s' = Some (uploadLog s')"
proof -
  from assms(3) have "\<forall>x \<in> set st. lookup_truthy (hashIndex (s\<lparr>tmpFiles := tf\<rparr>)) (st_sha256 x) \<noteq> None"
    by simp
  from store_staged_all_hits[OF this, of P clock now k user "[]"] assms(1,2,4)
  show ?thesis
    by (auto simp: upload_def unlink_all_apply)
qed

lemma duplicate_direct_imp:
  "foldl (stage_part P (users s)) (None, None, [], tmpFiles s) parts = (Some k, Some user, st, tf) \<and>
   k \<noteq> [] \<and> (\<forall>x \<in> set st. lookup_truthy (hashIndex s) (st_sha256 x) \<noteq> None) \<and>
   upload P clock now parts s = (reply, s')
   \<longrightarrow> reply = Ok []
         \<and> uploads s' = uploads s \<and> hashIndex s' = hashIndex s
         \<and> (\<forall>x \<in> set st. tmpFiles s' (st_tmpPath x) = None)
         \<and> uploadLog s' = uploadLog s @
              map (\<lambda>x. \<lparr> authKey = k, fullName = user, originalName = st_originalName x,
                          savedName = the (lookup_truthy (hashIndex s) (st_sha256 x)),
                          timestamp = now, hash = st_sha256 x, deduped = True \<rparr>) st
         \<and> logFile s' = Some (uploadLog s')"
  using duplicate_direct by blast

lemma duplicate_finalize_imp:
  "read_manifest None parts = Inr (Some m) \<and>
   req_uploadId m \<noteq> [] \<and> req_filename m \<noteq> [] \<and> req_authKey m \<noteq> [] \<and>
   lookup_truthy (users s) (req_authKey m) = Some user \<and>
   cs \<noteq> [] \<and> req_totalChunks m = int (length cs) \<and>
   (\<forall>j < length cs. chunkFiles s (getChunkPath (req_uploadId m) (Num (int j))) = Some (cs ! j)) \<and>
   lookup_truthy (hashIndex s) (sha256hex P (concat cs)) = Some existing \<and>
   upload_manifest P uuid clock now parts s = (reply, s')
   \<longrightarrow> reply = Ok (Deduped existing)
         \<and> uploads s' = uploads s \<and> hashIndex s' = hashIndex s
         \<and> tmpFiles s' = (tmpFiles s)(''.merge.'' @ uuid @ extname P (req_filename m) := None)
         \<and> uploadLog s' = uploadLog s @
              [\<lparr> authKey = req_authKey m, fullName = user, originalName = req_filename m,
                 savedName = existing, timestamp = now, hash = sha256hex P (concat cs), deduped = True \<rparr>]
         \<and> logFile s' = Some (uploadLog s')"
  using duplicate_finalize by blast

text \<open>
  Claim C6. A finalize whose assembled content has a SHA-256 that the hash index holds, and
  a direct upload all of whose files have such hashes, store nothing: the reply names the
  existing file (finalize) or lists no saved file (direct upload), the upload directory is
  unchanged, so no serial is reserved and no file added, the hash index is unchanged, the
  staged bytes are deleted, and the log gains one entry for each such content, with
  \<^verbatim>\<open>deduped: true\<close> and the \<^verbatim>\<open>savedName\<close> the index holds. Nothing depends on
  the owner who stored the original: the index is keyed by the hash alone.
\<close>

theorem duplicate_content_stores_nothing:
  "(read_manifest None parts = Inr (Some m) \<and>
    req_uploadId m \<noteq> [] \<and> req_filename m \<noteq> [] \<and> req_authKey m \<noteq> [] \<and>
    lookup_truthy (users s) (req_authKey m) = Some user \<and>
    cs \<noteq> [] \<and> req_totalChunks m = int (length cs) \<and>
    (\<forall>j < length cs. chunkFiles s (getChunkPath (req_uploadId m) (Num (int j))) = Some (cs ! j)) \<and>
    lookup_truthy (hashIndex s) (sha256hex P (concat cs)) = Some existing \<and>
    upload_manifest P uuid clock now parts s = (reply, s')
    \<longrightarrow> reply = Ok (Deduped existing)
          \<and> uploads s' = uploads s \<and> hashIndex s' = hashIndex s
          \<and> tmpFiles s' = (tmpFiles s)(''.merge.'' @ uuid @ extname P (req_filename m) := None)
          \<and> uploadLog s' = uploadLog s @
               [\<lparr> authKey = req_authKey m, fullName = user, originalName = req_filename m,
                  savedName = existing, timestamp = now, hash = sha256hex P (concat cs), deduped = True \<rparr>]
          \<and> logFile s' = Some (uploadLog s'))
   \<and>
   (foldl (stage_part P (users t)) (None, None, [], tmpFiles t) dparts = (Some k, Some owner, st, tf) \<and>
    k \<noteq> [] \<and> (\<forall>x \<in> set st. lookup_truthy (hashIndex t) (st_sha256 x) \<noteq> None) \<and>
    upload P dclock dnow dparts t = (dreply, t')
    \<longrightarrow> dreply = Ok []
          \<and> uploads t' = uploads t \<and> hashIndex t' = hashIndex t
          \<and> (\<forall>x \<in> set st. tmpFiles t' (st_tmpPath x) = None)
          \<and> uploadLog t' = uploadLog t @
               map (\<lambda>x. \<lparr> authKey = k, fullName = owner, originalName = st_originalName x,
                           savedName = the (lookup_truthy (hashIndex t) (st_sha256 x)),
                           timestamp = dnow, hash = st_sha256 x, deduped = True \<rparr>) st
          \<and> logFile t' = Some (uploadLog t'))"
  (is "?finalize \<and> ?direct")
proof
  show ?finalize
    by (rule duplicate_finalize_imp)
  show ?direct
    by (rule duplicate_direct_imp)
qed

theorem duplicate_content_stores_nothing_witness:
  "lookup_truthy
     (hashIndex (test_server\<lparr>chunkFiles := [''u1_chunk_0'' \<mapsto> ''A'', ''u1_chunk_1'' \<mapsto> ''B'', ''u1_chunk_2'' \<mapsto> ''C''],
                            hashIndex := [''sha:ABC'' \<mapsto> ''Ann_IMG-0000.jpg'']\<rparr>))
     (sha256hex test_platform ''ABC'') = Some ''Ann_IMG-0000.jpg''
   \<and> upload_manifest test_platform ''U'' (\<lambda>n. 0) 7
        [Json \<lparr> req_uploadId = ''u1'', req_totalChunks = 3, req_filename = ''pic.jpg'',
                 req_authKey = ''key1'', req_isVideo = False \<rparr>]
        (test_server\<lparr>chunkFiles := [''u1_chunk_0'' \<mapsto> ''A'', ''u1_chunk_1'' \<mapsto> ''B'', ''u1_chunk_2'' \<mapsto> ''C''],
                     hashIndex := [''sha:ABC'' \<mapsto> ''Ann_IMG-0000.jpg'']\<rparr>)
      = (Ok (Deduped ''Ann_IMG-0000.jpg''),
         snd (upload_manifest test_platform ''U'' (\<lambda>n. 0) 7
           [Json \<lparr> req_uploadId = ''u1'', req_totalChunks = 3, req_filename = ''pic.jpg'',
                    req_authKey = ''key1'', req_isVideo = False \<rparr>]
           (test_server\<lparr>chunkFiles := [''u1_chunk_0'' \<mapsto> ''A'', ''u1_chunk_1'' \<mapsto> ''B'', ''u1_chunk_2'' \<mapsto> ''C''],
                        hashIndex := [''sha:ABC'' \<mapsto> ''Ann_IMG-0000.jpg'']\<rparr>)))
   \<and> uploads (snd (upload_manifest test_platform ''U'' (\<lambda>n. 0) 7
        [Json \<lparr> req_uploadId = ''u1'', req_totalChunks = 3, req_filename = ''pic.jpg'',
                 req_authKey = ''key1'', req_isVideo = False \<rparr>]
        (test_server\<lparr>chunkFiles := [''u1_chunk_0'' \<mapsto> ''A'', ''u1_chunk_1'' \<mapsto> ''B'', ''u1_chunk_2'' \<mapsto> ''C''],
                     hashIndex := [''sha:ABC'' \<mapsto> ''Ann_IMG-0000.jpg'']\<rparr>))) = Some []
   \<and> uploadLog (snd (upload_manifest test_platform ''U'' (\<lambda>n. 0) 7
        [Json \<lparr> req_uploadId = ''u1'', req_totalChunks = 3, req_filename = ''pic.jpg'',
                 req_authKey = ''key1'', req_isVideo = False \<rparr>]
        (test_server\<lparr>chunkFiles := [''u1_chunk_0'' \<mapsto> ''A'', ''u1_chunk_1'' \<mapsto> ''B'', ''u1_chunk_2'' \<mapsto> ''C''],
                     hashIndex := [''sha:ABC'' \<mapsto> ''Ann_IMG-0000.jpg'']\<rparr>)))
      = [\<lparr> authKey = ''key1'', fullName = ''Bob'', originalName = ''pic.jpg'',
            savedName = ''Ann_IMG-0000.jpg'', timestamp = 7, hash = ''sha:ABC'', deduped = True \<rparr>]
   \<and> upload test_platform (\<lambda>n. 0) 8
        [DField ''authKey'' ''key1'', DFile ''copy.jpg'' ''image/jpeg'' ''ABC'' ''d1'']
        (test_server\<lparr>hashIndex := [''sha:ABC'' \<mapsto> ''Ann_IMG-0000.jpg'']\<rparr>)
      = (Ok [],
         snd (upload test_platform (\<lambda>n. 0) 8
           [DField ''authKey'' ''key1'', DFile ''copy.jpg'' ''image/jpeg'' ''ABC'' ''d1'']
           (test_server\<lparr>hashIndex := [''sha:ABC'' \<mapsto> ''Ann_IMG-0000.jpg'']\<rparr>)))
   \<and> uploads (snd (upload test_platform (\<lambda>n. 0) 8
        [DField ''authKey'' ''key1'', DFile ''copy.jpg'' ''image/jpeg'' ''ABC'' ''d1'']
        (test_server\<lparr>hashIndex := [''sha:ABC'' \<mapsto> ''Ann_IMG-0000.jpg'']\<rparr>))) = Some []
   \<and> tmpFiles (snd (upload test_platform (\<lambda>n. 0) 8
        [DField ''authKey'' ''key1'', DFile ''copy.jpg'' ''image/jpeg'' ''ABC'' ''d1'']
        (test_server\<lparr>hashIndex := [''sha:ABC'' \<mapsto> ''Ann_IMG-0000.jpg'']\<rparr>))) ''d1_copy.jpg'' = None
   \<and> uploadLog (snd (upload test_platform (\<lambda>n. 0) 8
        [DField ''authKey'' ''key1'', DFile ''copy.jpg'' ''image/jpeg'' ''ABC'' ''d1'']
        (test_server\<lparr>hashIndex := [''sha:ABC'' \<mapsto> ''Ann_IMG-0000.jpg'']\<rparr>)))
      = [\<lparr> authKey = ''key1'', fullName = ''Bob'', originalName = ''copy.jpg'',
            savedName = ''Ann_IMG-0000.jpg'', timestamp = 8, hash = ''sha:ABC'', deduped = True \<rparr>]"
proof -
  let ?s = "test_server\<lparr>chunkFiles := [''u1_chunk_0'' \<mapsto> ''A'', ''u1_chunk_1'' \<mapsto> ''B'', ''u1_chunk_2'' \<mapsto> ''C''],
                        hashIndex := [''sha:ABC'' \<mapsto> ''Ann_IMG-0000.jpg'']\<rparr>"
  let ?m = "\<lparr> req_uploadId = ''u1'', req_totalChunks = 3, req_filename = ''pic.jpg'',
              req_authKey = ''key1'', req_isVideo = False \<rparr>"
  let ?cs = "[''A'', ''B'', ''C'']"
  let ?run = "upload_manifest test_platform ''U'' (\<lambda>n. 0) 7 [Json ?m] ?s"
  let ?t = "test_server\<lparr>hashIndex := [''sha:ABC'' \<mapsto> ''Ann_IMG-0000.jpg'']\<rparr>"
  let ?dparts = "[DField ''authKey'' ''key1'', DFile ''copy.jpg'' ''image/jpeg'' ''ABC'' ''d1'']"
  let ?drun = "upload test_platform (\<lambda>n. 0) 8 ?dparts ?t"
  let ?st = "[\<lparr> st_tmpPath = ''d1_copy.jpg'', st_sha256 = ''sha:ABC'', st_ext = ''.jpg'',
                st_isVideo = False, st_originalName = ''copy.jpg'' \<rparr>]"
  have h8: "\<forall>j < length ?cs. chunkFiles ?s (getChunkPath (req_uploadId ?m) (Num (int j))) = Some (?cs ! j)"
  proof (intro allI impI)
    fix j assume "j < length ?cs"
    then consider "j = 0" | "j = 1" | "j = 2" by fastforce
    then show "chunkFiles ?s (getChunkPath (req_uploadId ?m) (Num (int j))) = Some (?cs ! j)"
      by cases (simp_all add: chunk_paths_u1)
  qed
  have hit: "lookup_truthy (hashIndex ?s) (sha256hex test_platform (concat ?cs)) = Some ''Ann_IMG-0000.jpg''"
    by (simp add: lookup_truthy_def)
  have A: "read_manifest None [Json ?m] = Inr (Some ?m) \<and>
    req_uploadId ?m \<noteq> [] \<and> req_filename ?m \<noteq> [] \<and> req_authKey ?m \<noteq> [] \<and>
    lookup_truthy (users ?s) (req_authKey ?m) = Some ''Bob'' \<and>
    ?cs \<noteq> [] \<and> req_totalChunks ?m = int (length ?cs) \<and>
    (\<forall>j < length ?cs. chunkFiles ?s (getChunkPath (req_uploadId ?m) (Num (int j))) = Some (?cs ! j)) \<and>
    lookup_truthy (hashIndex ?s) (sha256hex test_platform (concat ?cs)) = Some ''Ann_IMG-0000.jpg'' \<and>
    ?run = (fst ?run, snd ?run)"
    using h8 hit by (simp add: lookup_truthy_def)
  have stage: "foldl (stage_part test_platform (users ?t)) (None, None, [], tmpFiles ?t) ?dparts
                 = (Some ''key1'', Some ''Bob'', ?st, [''d1_copy.jpg'' \<mapsto> ''ABC''])"
    by (simp add: field_values lookup_truthy_def startsWith_def video_exts_def Let_def)
  have B: "foldl (stage_part test_platform (users ?t)) (None, None, [], tmpFiles ?t) ?dparts
             = (Some ''key1'', Some ''Bob'', ?st, [''d1_copy.jpg'' \<mapsto> ''ABC'']) \<and>
    ''key1'' \<noteq> [] \<and> (\<forall>x \<in> set ?st. lookup_truthy (hashIndex ?t) (st_sha256 x) \<noteq> None) \<and>
    ?drun = (fst ?drun, snd ?drun)"
    using stage by (simp add: lookup_truthy_def)
  note inst = duplicate_content_stores_nothing[where P=test_platform and parts="[Json ?m]" and m="?m"
      and s="?s" and user="''Bob''" and cs="?cs" and existing="''Ann_IMG-0000.jpg''" and uuid="''U''"
      and clock="\<lambda>n. 0" and now=7 and reply="fst ?run" and s'="snd ?run"
      and t="?t" and dparts="?dparts" and k="''key1''" and owner="''Bob''" and st="?st"
      and tf="[''d1_copy.jpg'' \<mapsto> ''ABC'']" and dclock="\<lambda>n. 0" and dnow=8
      and dreply="fst ?drun" and t'="snd ?drun"]
  from inst A have fin: "fst ?run = Ok (Deduped ''Ann_IMG-0000.jpg'')" "uploads (snd ?run) = uploads ?s"
    "uploadLog (snd ?run) = uploadLog ?s @
               [\<lparr> authKey = req_authKey ?m, fullName = ''Bob'', originalName = req_filename ?m,
                  savedName = ''Ann_IMG-0000.jpg'', timestamp = 7,
                  hash = sha256hex test_platform (concat ?cs), deduped = True \<rparr>]"
    by blast+
  from inst B have dir: "fst ?drun = Ok []" "uploads (snd ?drun) = uploads ?t"
    "\<forall>x \<in> set ?st. tmpFiles (snd ?drun) (st_tmpPath x) = None"
    "uploadLog (snd ?drun) = uploadLog ?t @
               map (\<lambda>x. \<lparr> authKey = ''key1'', fullName = ''Bob'', originalName = st_originalName x,
                           savedName = the (lookup_truthy (hashIndex ?t) (st_sha256 x)),
                           timestamp = 8, hash = st_sha256 x, deduped = True \<rparr>) ?st"
    by blast+
  have e1: "?run = (Ok (Deduped ''Ann_IMG-0000.jpg''), snd ?run)"
    using fin(1) by (metis prod.collapse)
  have e2: "?drun = (Ok [], snd ?drun)"
    using dir(1) by (metis prod.collapse)
  from hit e1 fin(2,3) e2 dir(2,3,4) show ?thesis
    by (simp add: lookup_truthy_def)
qed

section \<open>A serial under two extensions\<close>

text \<open>
  Claim C8. The source heads its allocator with the rule
  \<^verbatim>\<open>"serial is sacred": Name_IMG-0026.* is unique regardless of ext\<close>, and the
  specification has a serial that is in use under one extension never given out under
  another. \<open>isRealSerialUsed\<close> breaks the rule: it passes over every entry whose extension
  is \<^verbatim>\<open>lock\<close> or \<^verbatim>\<open>serial\<close>, and a stored upload can have that extension. Owner Bob
  uploads \<^verbatim>\<open>x.serial\<close>, which is stored as \<^verbatim>\<open>Bob_IMG-0000.serial\<close>. Bob then uploads
  \<^verbatim>\<open>y.jpg\<close>: on that directory the allocator returns serial 0 again, and the upload
  directory ends with \<^verbatim>\<open>Bob_IMG-0000.serial\<close> and \<^verbatim>\<open>Bob_IMG-0000.jpg\<close>, two stored
  files under one serial.
\<close>

theorem serial_reused_after_serial_extension:
  "upload test_platform (\<lambda>n. 1000) 1000
      [DField ''authKey'' ''key1'', DFile ''x.serial'' ''image/png'' ''AAA'' ''r1''] test_server
     = (Ok [''Bob_IMG-0000.serial''],
        test_server\<lparr>uploads := Some [(''Bob_IMG-0000.serial'', File 1000 ''AAA'')],
                     hashIndex := [''sha:AAA'' \<mapsto> ''Bob_IMG-0000.serial''],
                     uploadLog := [\<lparr> authKey = ''key1'', fullName = ''Bob'', originalName = ''x.serial'',
                        savedName = ''Bob_IMG-0000.serial'', timestamp = 1000, hash = ''sha:AAA'',
                        deduped = False \<rparr>],
                     logFile := Some [\<lparr> authKey = ''key1'', fullName = ''Bob'', originalName = ''x.serial'',
                        savedName = ''Bob_IMG-0000.serial'', timestamp = 1000, hash = ''sha:AAA'',
                        deduped = False \<rparr>]\<rparr>)
   \<and> reserveSerialPath test_platform (\<lambda>n. 2000)
        (Some [(''Bob_IMG-0000.serial'', File 1000 ''AAA'')]) ''Bob'' False ''.jpg''
     = (Inr (''Bob_IMG-0000.jpg'', ''Bob_IMG-0000.lock'', 0),
        Some [(''Bob_IMG-0000.serial'', File 1000 ''AAA''), (''Bob_IMG-0000.lock'', Dir 2000)], 1)
   \<and> fst (upload test_platform (\<lambda>n. 2000) 2000
        [DField ''authKey'' ''key1'', DFile ''y.jpg'' ''image/jpeg'' ''BBB'' ''r2'']
        (snd (upload test_platform (\<lambda>n. 1000) 1000
           [DField ''authKey'' ''key1'', DFile ''x.serial'' ''image/png'' ''AAA'' ''r1''] test_server)))
     = Ok [''Bob_IMG-0000.jpg'']
   \<and> uploads (snd (upload test_platform (\<lambda>n. 2000) 2000
        [DField ''authKey'' ''key1'', DFile ''y.jpg'' ''image/jpeg'' ''BBB'' ''r2'']
        (snd (upload test_platform (\<lambda>n. 1000) 1000
           [DField ''authKey'' ''key1'', DFile ''x.serial'' ''image/png'' ''AAA'' ''r1''] test_server))))
     = Some [(''Bob_IMG-0000.serial'', File 1000 ''AAA''), (''Bob_IMG-0000.jpg'', File 2000 ''BBB'')]"
proof -
  let ?e = "\<lparr> authKey = ''key1'', fullName = ''Bob'', originalName = ''x.serial'',
              savedName = ''Bob_IMG-0000.serial'', timestamp = 1000, hash = ''sha:AAA'', deduped = False \<rparr>"
  let ?d1 = "Some [(''Bob_IMG-0000.serial'', File 1000 ''AAA'')]"
  let ?s1 = "test_server\<lparr>uploads := ?d1, hashIndex := [''sha:AAA'' \<mapsto> ''Bob_IMG-0000.serial''],
                          uploadLog := [?e], logFile := Some [?e]\<rparr>"
  have trim: "trim ''key1'' = ''key1''"
    by code_simp
  have video: "''.serial'' \<notin> set video_exts" "''.jpg'' \<notin> set video_exts"
    "\<not> startsWith ''image/png'' ''video/''" "\<not> startsWith ''image/jpeg'' ''video/''"
    by code_simp+
  have a0: "reserve_step test_platform 1000 ''Bob'' ''IMG'' ''.serial'' 0 (Some [])
              = Return (''Bob_IMG-0000.serial'', ''Bob_IMG-0000.lock'', 0) (Some [(''Bob_IMG-0000.lock'', Dir 1000)])"
    by code_simp
  have first: "reserveSerialPath test_platform (\<lambda>n. 1000) (Some []) ''Bob'' False ''.serial''
     = (Inr (''Bob_IMG-0000.serial'', ''Bob_IMG-0000.lock'', 0), Some [(''Bob_IMG-0000.lock'', Dir 1000)], Suc 0)"
    unfolding reserveSerialPath_def Let_def
    by (simp add: reserve_loop_Return a0)
  have b0: "reserve_step test_platform 2000 ''Bob'' ''IMG'' ''.jpg'' 0 ?d1
              = Return (''Bob_IMG-0000.jpg'', ''Bob_IMG-0000.lock'', 0)
                  (Some [(''Bob_IMG-0000.serial'', File 1000 ''AAA''), (''Bob_IMG-0000.lock'', Dir 2000)])"
    by code_simp
  have second: "reserveSerialPath test_platform (\<lambda>n. 2000) ?d1 ''Bob'' False ''.jpg''
     = (Inr (''Bob_IMG-0000.jpg'', ''Bob_IMG-0000.lock'', 0),
        Some [(''Bob_IMG-0000.serial'', File 1000 ''AAA''), (''Bob_IMG-0000.lock'', Dir 2000)], Suc 0)"
    unfolding reserveSerialPath_def Let_def
    by (simp add: reserve_loop_Return b0)
  have run1: "upload test_platform (\<lambda>n. 1000) 1000
      [DField ''authKey'' ''key1'', DFile ''x.serial'' ''image/png'' ''AAA'' ''r1''] test_server
     = (Ok [''Bob_IMG-0000.serial''], ?s1)"
    by (simp add: upload_def Let_def trim video lookup_truthy_def first finalizeReservation_def put_def rmrf_def
          test_server_def)
  have run2: "fst (upload test_platform (\<lambda>n. 2000) 2000
        [DField ''authKey'' ''key1'', DFile ''y.jpg'' ''image/jpeg'' ''BBB'' ''r2''] ?s1)
     = Ok [''Bob_IMG-0000.jpg'']
     \<and> uploads (snd (upload test_platform (\<lambda>n. 2000) 2000
        [DField ''authKey'' ''key1'', DFile ''y.jpg'' ''image/jpeg'' ''BBB'' ''r2''] ?s1))
       = Some [(''Bob_IMG-0000.serial'', File 1000 ''AAA''), (''Bob_IMG-0000.jpg'', File 2000 ''BBB'')]"
    by (simp add: upload_def Let_def trim video lookup_truthy_def second finalizeReservation_def put_def rmrf_def)
  show ?thesis
    unfolding run1 using second run2 by simp
qed

section \<open>Properties of the chunk receiver and the status query\<close>

lemma field_names_append: "field_names (ps @ qs) = field_names ps @ field_names qs"
  by (induction ps rule: field_names.induct) auto

lemma writeJsonAtomic_apply: "writeJsonAtomic file obj m file = Some obj"
  by (simp add: writeJsonAtomic_def rename_file_def Let_def)


lemma init_vars_simps [simp]:
  "v_uploadId init_vars = None" "v_index init_vars = None" "v_wroteTemp init_vars = False"
  "v_sawFile init_vars = False" "v_wrotePath init_vars = None"
  by (simp_all add: init_vars_def)


text \<open>
  The body loop on a submission of fields around one payload: the fields set the
  variables, the payload part sets the three variables of the write and puts the payload
  at \<open>write_target\<close>.
\<close>

lemma set_field_written:
  "set_field (v\<lparr>v_sawFile := a, v_wrotePath := b, v_wroteTemp := c\<rparr>) n val
     = (set_field v n val)\<lparr>v_sawFile := a, v_wrotePath := b, v_wroteTemp := c\<rparr>"
  by (simp add: set_field_def)

lemma field_vars_written:
  "field_vars (v\<lparr>v_sawFile := a, v_wrotePath := b, v_wroteTemp := c\<rparr>) ps
     = (field_vars v ps)\<lparr>v_sawFile := a, v_wrotePath := b, v_wroteTemp := c\<rparr>"
proof (induction ps arbitrary: v)
  case Nil
  show ?case by simp
next
  case (Cons p ps)
  then show ?case
    by (cases p) (simp_all add: set_field_written)
qed

lemma field_vars_append: "field_vars v (ps @ qs) = field_vars (field_vars v ps) qs"
proof (induction ps arbitrary: v)
  case Nil
  show ?case by simp
next
  case (Cons p ps)
  then show ?case
    by (cases p) simp_all
qed

lemma field_vars_frame:
  "v_sawFile (field_vars v ps) = v_sawFile v \<and> v_wrotePath (field_vars v ps) = v_wrotePath v
   \<and> v_wroteTemp (field_vars v ps) = v_wroteTemp v"
proof (induction ps arbitrary: v)
  case Nil
  show ?case by simp
next
  case (Cons p ps)
  then show ?case
    by (cases p) (simp_all add: set_field_def)
qed

lemma field_vars_keep_uploadId:
  "''uploadId'' \<notin> set (field_names ps) \<Longrightarrow> v_uploadId (field_vars v ps) = v_uploadId v"
proof (induction ps arbitrary: v)
  case Nil
  show ?case by simp
next
  case (Cons p ps)
  then show ?case
    by (cases p) (auto simp: set_field_def)
qed

lemma field_vars_keep_index:
  "''index'' \<notin> set (field_names ps) \<Longrightarrow> v_index (field_vars v ps) = v_index v"
proof (induction ps arbitrary: v)
  case Nil
  show ?case by simp
next
  case (Cons p ps)
  then show ?case
    by (cases p) (auto simp: set_field_def)
qed

lemma body_fields:
  "\<forall>p \<in> set fs. is_field p \<Longrightarrow> foldl chunk_part (Running v cf) fs = Running (field_vars v fs) cf"
proof (induction fs arbitrary: v)
  case Nil
  show ?case by simp
next
  case (Cons p fs)
  then show ?case
    by (cases p) simp_all
qed

lemma write_target_direct:
  "v_uploadId v = Some uid \<Longrightarrow> uid \<noteq> [] \<Longrightarrow> v_index v = Some index \<Longrightarrow>
     write_target v drawn = getChunkPath uid index"
  by (simp add: write_target_def)

lemma write_target_staged:
  "\<not> (truthy (v_uploadId v) \<and> v_index v \<noteq> None) \<Longrightarrow> write_target v drawn = ''.inflight.'' @ drawn"
  by (auto simp: write_target_def split: option.splits)

lemma payload_step:
  assumes "\<forall>u. v_uploadId v = Some u \<longrightarrow> plain_name u"
  shows "chunk_part (Running v cf) (FilePart ''chunk'' payload drawn) =
           Running (v\<lparr>v_sawFile := True, v_wrotePath := Some (write_target v drawn),
                      v_wroteTemp := (v_wroteTemp v \<or> \<not> (truthy (v_uploadId v) \<and> v_index v \<noteq> None))\<rparr>)
                   (cf(write_target v drawn \<mapsto> payload))"
  using assms by (auto simp: write_target_def split: option.splits)

lemma body_payload:
  assumes fields: "\<forall>p \<in> set (pre @ post). is_field p"
    and plain: "\<forall>u. v_uploadId (field_vars init_vars pre) = Some u \<longrightarrow> plain_name u"
  shows "foldl chunk_part (Running init_vars cf) (pre @ [FilePart ''chunk'' payload drawn] @ post) =
           Running ((field_vars init_vars (pre @ post))
                       \<lparr>v_sawFile := True, v_wrotePath := Some (write_target (field_vars init_vars pre) drawn),
                        v_wroteTemp := \<not> (truthy (v_uploadId (field_vars init_vars pre))
                                           \<and> v_index (field_vars init_vars pre) \<noteq> None)\<rparr>)
                   (cf(write_target (field_vars init_vars pre) drawn \<mapsto> payload))"
proof -
  let ?v1 = "field_vars init_vars pre"
  from fields have fpre: "\<forall>p \<in> set pre. is_field p" and fpost: "\<forall>p \<in> set post. is_field p"
    by auto
  have t: "v_wroteTemp ?v1 = False"
    using field_vars_frame[of init_vars pre] by simp
  have "foldl chunk_part (Running init_vars cf) (pre @ [FilePart ''chunk'' payload drawn] @ post)
        = foldl chunk_part (chunk_part (Running ?v1 cf) (FilePart ''chunk'' payload drawn)) post"
    by (simp add: body_fields[OF fpre])
  also have "\<dots> = Running (field_vars (?v1\<lparr>v_sawFile := True, v_wrotePath := Some (write_target ?v1 drawn),
                      v_wroteTemp := (v_wroteTemp ?v1 \<or> \<not> (truthy (v_uploadId ?v1) \<and> v_index ?v1 \<noteq> None))\<rparr>) post)
                   (cf(write_target ?v1 drawn \<mapsto> payload))"
    unfolding payload_step[OF plain] by (rule body_fields[OF fpost])
  finally show ?thesis
    unfolding field_vars_written field_vars_append t by simp
qed






text \<open>
  A file part under another field name than \<^verbatim>\<open>chunk\<close> stalls the loop: the request gets
  no reply, and nothing of it is written.
\<close>

lemma stray_file_part_stalls:
  assumes "\<forall>p \<in> set pre. is_field p" and "fieldname \<noteq> ''chunk''"
  shows "upload_chunk now (pre @ [FilePart fieldname payload drawn] @ post) s = (NoReply, s)"
proof -
  have stalled: "foldl chunk_part (Stalled cf) ps = Stalled cf" for cf ps
    by (induction ps) simp_all
  show ?thesis
    unfolding upload_chunk_def
    by (simp add: body_fields[OF assms(1)] assms(2) stalled)
qed




text \<open>
  Claim C7. A valid submission in which every field is sent once and the payload once,
  in any order, for an index \<open>i\<close> that the upload's manifest already lists, \<open>v\<close> being
  the variables its fields set and its \<^verbatim>\<open>uploadId\<close> the name of a file of the chunk
  directory (no path separator): the reply is \<^verbatim>\<open>{ok: true, index: i}\<close>, the chunk file of
  \<open>i\<close> holds the new payload, and the manifest's \<^verbatim>\<open>received\<close> array is what it was (only
  \<^verbatim>\<open>mtime\<close> is refreshed).
\<close>

theorem resubmitted_chunk_is_idempotent:
  assumes shape: "parts = pre @ [FilePart ''chunk'' payload drawn] @ post"
    and fields: "\<forall>p \<in> set (pre @ post). is_field p"
    and once: "distinct (field_names (pre @ post))"
    and v: "v = field_vars init_vars (pre @ post)"
    and auth: "v_authKey v = Some k" "k \<noteq> []" "lookup_truthy (users s) k = Some user"
    and uid: "v_uploadId v = Some uid" "uid \<noteq> []" "plain_name uid"
    and idx: "v_index v = Some (Num i)"
    and tot: "v_totalChunks v = Some tot"
    and man: "manifestFiles s (getManifestPath uid) = Some (MJson m)"
    and rcv: "JNum i \<in> set (received m)"
    and run: "upload_chunk now parts s = (reply, s')"
  shows "reply = Replied (Ok (Num i))
         \<and> chunkFiles s' (getChunkPath uid (Num i)) = Some payload
         \<and> manifestFiles s' (getManifestPath uid) = Some (MJson (m\<lparr>mtime := now\<rparr>))
         \<and> received (m\<lparr>mtime := now\<rparr>) = received m"
proof -
  let ?v1 = "field_vars init_vars pre"
  let ?tgt = "write_target ?v1 drawn"
  let ?tmp = "''.inflight.'' @ drawn"
  let ?final = "getChunkPath uid (Num i)"
  let ?mf = "writeJsonAtomic (getManifestPath uid) (MJson (m\<lparr>mtime := now\<rparr>)) (manifestFiles s)"
  have vpost: "v = field_vars ?v1 post"
    using v by (simp add: field_vars_append)
  have keep_u: "u = uid" if a: "v_uploadId ?v1 = Some u" for u
  proof -
    have "''uploadId'' \<in> set (field_names pre)"
      using field_vars_keep_uploadId[of pre init_vars] a by auto
    with once have "''uploadId'' \<notin> set (field_names post)"
      by (auto simp: field_names_append)
    from field_vars_keep_uploadId[OF this, of ?v1] vpost uid(1) a show ?thesis
      by simp
  qed
  have keep_i: "j = Num i" if a: "v_index ?v1 = Some j" for j
  proof -
    have "''index'' \<in> set (field_names pre)"
      using field_vars_keep_index[of pre init_vars] a by auto
    with once have "''index'' \<notin> set (field_names post)"
      by (auto simp: field_names_append)
    from field_vars_keep_index[OF this, of ?v1] vpost idx a show ?thesis
      by simp
  qed
  from keep_u uid(3) have plain: "\<forall>u. v_uploadId ?v1 = Some u \<longrightarrow> plain_name u"
    by auto
  note body = body_payload[OF fields plain, of "chunkFiles s" payload drawn]
  from auth have ok: "\<not> (\<not> truthy (v_authKey v) \<or> lookup_truthy (users s) (the (v_authKey v)) = None)"
    by simp
  show ?thesis
  proof (cases "truthy (v_uploadId ?v1) \<and> v_index ?v1 \<noteq> None")
    case True
    then obtain u1 i1 where d: "v_uploadId ?v1 = Some u1" "u1 \<noteq> []" "v_index ?v1 = Some i1"
      by (cases "v_uploadId ?v1") auto
    with keep_u keep_i have "u1 = uid" "i1 = Num i"
      by auto
    with d have tgt: "?tgt = ?final"
      by (simp add: write_target_direct)
    have "upload_chunk now parts s =
            (Replied (Ok (Num i)), s\<lparr>chunkFiles := (chunkFiles s)(?final \<mapsto> payload), manifestFiles := ?mf\<rparr>)"
      unfolding upload_chunk_def shape body v[symmetric] tgt
      using True ok uid idx tot man rcv by (simp add: Let_def)
    with run have "reply = Replied (Ok (Num i))"
      and "s' = s\<lparr>chunkFiles := (chunkFiles s)(?final \<mapsto> payload), manifestFiles := ?mf\<rparr>"
      by simp_all
    then show ?thesis
      by (simp add: writeJsonAtomic_apply)
  next
    case False
    then have tgt: "?tgt = ?tmp"
      by (rule write_target_staged)
    have "upload_chunk now parts s =
            (Replied (Ok (Num i)),
             s\<lparr>chunkFiles := (((chunkFiles s)(?tmp \<mapsto> payload))(?tmp := None))(?final \<mapsto> payload),
               manifestFiles := ?mf\<rparr>)"
      unfolding upload_chunk_def shape body v[symmetric] tgt
      using False ok uid idx tot man rcv by (simp add: Let_def rename_file_def)
    with run have "reply = Replied (Ok (Num i))"
      and "s' = s\<lparr>chunkFiles := (((chunkFiles s)(?tmp \<mapsto> payload))(?tmp := None))(?final \<mapsto> payload),
                  manifestFiles := ?mf\<rparr>"
      by simp_all
    then show ?thesis
      by (simp add: writeJsonAtomic_apply)
  qed
qed

theorem resubmitted_chunk_is_idempotent_witness:
  "distinct (field_names
      ([Field ''authKey'' ''key1'', Field ''uploadId'' ''u1''] @ [Field ''index'' ''0'', Field ''totalChunks'' ''3'']))
   \<and> plain_name ''u1''
   \<and> chunkFiles (test_server\<lparr>chunkFiles := [''u1_chunk_0'' \<mapsto> ''OLD''],
        manifestFiles := [''u1.json'' \<mapsto> MJson \<lparr> uploadId = ''u1'', filename = Some ''pic.jpg'',
           totalChunks = JNum 3, isVideo = False, received = [JNum 0], mtime = 5 \<rparr>]\<rparr>) ''u1_chunk_0'' = Some ''OLD''
   \<and> fst (upload_chunk 9
        [Field ''authKey'' ''key1'', Field ''uploadId'' ''u1'', FilePart ''chunk'' ''NEW'' ''t1'',
         Field ''index'' ''0'', Field ''totalChunks'' ''3'']
        (test_server\<lparr>chunkFiles := [''u1_chunk_0'' \<mapsto> ''OLD''],
           manifestFiles := [''u1.json'' \<mapsto> MJson \<lparr> uploadId = ''u1'', filename = Some ''pic.jpg'',
             totalChunks = JNum 3, isVideo = False, received = [JNum 0], mtime = 5 \<rparr>]\<rparr>))
      = Replied (Ok (Num 0))
   \<and> chunkFiles (snd (upload_chunk 9
        [Field ''authKey'' ''key1'', Field ''uploadId'' ''u1'', FilePart ''chunk'' ''NEW'' ''t1'',
         Field ''index'' ''0'', Field ''totalChunks'' ''3'']
        (test_server\<lparr>chunkFiles := [''u1_chunk_0'' \<mapsto> ''OLD''],
           manifestFiles := [''u1.json'' \<mapsto> MJson \<lparr> uploadId = ''u1'', filename = Some ''pic.jpg'',
             totalChunks = JNum 3, isVideo = False, received = [JNum 0], mtime = 5 \<rparr>]\<rparr>))) ''u1_chunk_0''
      = Some ''NEW''
   \<and> manifestFiles (snd (upload_chunk 9
        [Field ''authKey'' ''key1'', Field ''uploadId'' ''u1'', FilePart ''chunk'' ''NEW'' ''t1'',
         Field ''index'' ''0'', Field ''totalChunks'' ''3'']
        (test_server\<lparr>chunkFiles := [''u1_chunk_0'' \<mapsto> ''OLD''],
           manifestFiles := [''u1.json'' \<mapsto> MJson \<lparr> uploadId = ''u1'', filename = Some ''pic.jpg'',
             totalChunks = JNum 3, isVideo = False, received = [JNum 0], mtime = 5 \<rparr>]\<rparr>))) ''u1.json''
      = Some (MJson \<lparr> uploadId = ''u1'', filename = Some ''pic.jpg'',
             totalChunks = JNum 3, isVideo = False, received = [JNum 0], mtime = 9 \<rparr>)"
proof -
  let ?m = "\<lparr> uploadId = ''u1'', filename = Some ''pic.jpg'',
             totalChunks = JNum 3, isVideo = False, received = [JNum 0], mtime = 5 \<rparr>"
  let ?s = "test_server\<lparr>chunkFiles := [''u1_chunk_0'' \<mapsto> ''OLD''], manifestFiles := [''u1.json'' \<mapsto> MJson ?m]\<rparr>"
  let ?pre = "[Field ''authKey'' ''key1'', Field ''uploadId'' ''u1'']"
  let ?post = "[Field ''index'' ''0'', Field ''totalChunks'' ''3'']"
  let ?parts = "[Field ''authKey'' ''key1'', Field ''uploadId'' ''u1'', FilePart ''chunk'' ''NEW'' ''t1'',
         Field ''index'' ''0'', Field ''totalChunks'' ''3'']"
  let ?v = "field_vars init_vars (?pre @ ?post)"
  let ?run = "upload_chunk 9 ?parts ?s"
  have shape: "?parts = ?pre @ [FilePart ''chunk'' ''NEW'' ''t1''] @ ?post" by simp
  have fields: "\<forall>p \<in> set (?pre @ ?post). is_field p" by simp
  have once: "distinct (field_names (?pre @ ?post))" by simp
  have a: "v_authKey ?v = Some ''key1''" "''key1'' \<noteq> []" "lookup_truthy (users ?s) ''key1'' = Some ''Bob''"
    by (simp_all add: set_field_def field_values lookup_truthy_def)
  have u: "v_uploadId ?v = Some ''u1''" "''u1'' \<noteq> []" "plain_name ''u1''"
    by (simp_all add: set_field_def field_values plain_name_def)
  have i: "v_index ?v = Some (Num 0)"
    by (simp add: set_field_def field_values)
  have t: "v_totalChunks ?v = Some (Num 3)"
    by (simp add: set_field_def field_values)
  have man: "manifestFiles ?s (getManifestPath ''u1'') = Some (MJson ?m)"
    by (simp add: getManifestPath_def)
  have rcv: "JNum 0 \<in> set (received ?m)" by simp
  have run: "?run = (fst ?run, snd ?run)" by simp
  from resubmitted_chunk_is_idempotent[OF shape fields once refl a u i t man rcv run] once u(3)
  show ?thesis
    by (simp add: chunk_paths_u1 getManifestPath_def)
qed

text \<open>
  Claim C10. A status query for a non-empty upload id that has no manifest file is answered
  \<^verbatim>\<open>{received: []}\<close>, not an error; an upload whose manifest lists no chunk gets the
  same answer.
\<close>

theorem status_without_manifest:
  assumes "ident \<noteq> []"
    and "manifestFiles s (getManifestPath ident) = None"
  shows "upload_status (Some ident) s = Ok []
         \<and> (\<forall>s2 m. manifestFiles s2 (getManifestPath ident) = Some (MJson m) \<and> received m = []
               \<longrightarrow> upload_status (Some ident) s2 = upload_status (Some ident) s)"
  using assms by (simp add: upload_status_def)


theorem status_without_manifest_witness:
  "''u9'' \<noteq> [] \<and> manifestFiles test_server (getManifestPath ''u9'') = None
   \<and> upload_status (Some ''u9'') test_server = Ok []
   \<and> upload_status (Some ''u9'')
        (test_server\<lparr>manifestFiles := [''u9.json'' \<mapsto> MJson \<lparr> uploadId = ''u9'', filename = None,
           totalChunks = JNum 2, isVideo = False, received = [], mtime = 1 \<rparr>]\<rparr>)
      = upload_status (Some ''u9'') test_server"
proof -
  let ?m = "\<lparr> uploadId = ''u9'', filename = None, totalChunks = JNum 2, isVideo = False,
              received = [], mtime = 1 \<rparr>"
  let ?s2 = "test_server\<lparr>manifestFiles := [''u9.json'' \<mapsto> MJson ?m]\<rparr>"
  have h1: "''u9'' \<noteq> []" by simp
  have h2: "manifestFiles test_server (getManifestPath ''u9'') = None" by simp
  have h3: "manifestFiles ?s2 (getManifestPath ''u9'') = Some (MJson ?m) \<and> received ?m = []"
    by (simp add: getManifestPath_def)
  from status_without_manifest[OF h1 h2] h3
  have "upload_status (Some ''u9'') test_server = Ok []"
    and "upload_status (Some ''u9'') ?s2 = upload_status (Some ''u9'') test_server"
    by blast+
  with h1 h2 show ?thesis
    by simp
qed
end
